theory Spec2Isabelle
  imports Main "HOL-Library.AList"
begin

section \<open>Strings\<close>

text \<open>
  A Python \<open>str\<close> is modelled as a \<^typ>\<open>string\<close>: a list of characters, each standing
  for one code point below 256. The regular expressions of the program only distinguish
  ASCII letters, digits, the underscore, the comma and the two quote characters.
\<close>

definition is_word_char :: "char \<Rightarrow> bool" where
  \<comment> \<open>the complement of the class \<open>[^a-zA-Z0-9_]\<close>: ranges are ranges of code points\<close>
  "is_word_char c =
     (let n = (of_char c :: nat)
      in (97 \<le> n \<and> n \<le> 122) \<or> (65 \<le> n \<and> n \<le> 90) \<or> (48 \<le> n \<and> n \<le> 57) \<or> c = CHR ''_'')"

definition sub_special :: "string \<Rightarrow> string" where
  \<comment> \<open>\<open>re.sub(r'[^a-zA-Z0-9_]', '_', s)\<close>: every match is one character\<close>
  "sub_special s = map (\<lambda>c. if is_word_char c then c else CHR ''_'') s"

definition strip_underscores :: "string \<Rightarrow> string" where
  \<comment> \<open>\<open>s.strip('_')\<close>\<close>
  "strip_underscores s =
     rev (dropWhile (\<lambda>c. c = CHR ''_'') (rev (dropWhile (\<lambda>c. c = CHR ''_'') s)))"

function collapse_underscores :: "string \<Rightarrow> string" where
  \<comment> \<open>\<open>re.sub(r'_+', '_', s)\<close>: a match is a maximal run of underscores\<close>
  "collapse_underscores [] = []"
| "collapse_underscores (c # cs) =
     (if c = CHR ''_''
      then CHR ''_'' # collapse_underscores (dropWhile (\<lambda>d. d = CHR ''_'') cs)
      else c # collapse_underscores cs)"
  by pat_completeness auto
termination
  by (relation "measure length") (auto simp: le_imp_less_Suc length_dropWhile_le)

definition latin1_capitals :: string where
  \<comment> \<open>the capital letters from \<open>0xC0\<close> to \<open>0xDE\<close>; \<open>0xD7\<close> is the multiplication sign\<close>
  "latin1_capitals =
     [CHR 0xC0, CHR 0xC1, CHR 0xC2, CHR 0xC3, CHR 0xC4, CHR 0xC5, CHR 0xC6, CHR 0xC7,
      CHR 0xC8, CHR 0xC9, CHR 0xCA, CHR 0xCB, CHR 0xCC, CHR 0xCD, CHR 0xCE, CHR 0xCF,
      CHR 0xD0, CHR 0xD1, CHR 0xD2, CHR 0xD3, CHR 0xD4, CHR 0xD5, CHR 0xD6, CHR 0xD8,
      CHR 0xD9, CHR 0xDA, CHR 0xDB, CHR 0xDC, CHR 0xDD, CHR 0xDE]"

definition latin1_smalls :: string where
  "latin1_smalls =
     [CHR 0xE0, CHR 0xE1, CHR 0xE2, CHR 0xE3, CHR 0xE4, CHR 0xE5, CHR 0xE6, CHR 0xE7,
      CHR 0xE8, CHR 0xE9, CHR 0xEA, CHR 0xEB, CHR 0xEC, CHR 0xED, CHR 0xEE, CHR 0xEF,
      CHR 0xF0, CHR 0xF1, CHR 0xF2, CHR 0xF3, CHR 0xF4, CHR 0xF5, CHR 0xF6, CHR 0xF8,
      CHR 0xF9, CHR 0xFA, CHR 0xFB, CHR 0xFC, CHR 0xFD, CHR 0xFE]"

definition lower_char :: "char \<Rightarrow> char" where
  \<comment> \<open>\<open>str.lower\<close> on one character, for the code points below 256\<close>
  "lower_char c =
     (case map_of (zip (''ABCDEFGHIJKLMNOPQRSTUVWXYZ'' @ latin1_capitals)
                       (''abcdefghijklmnopqrstuvwxyz'' @ latin1_smalls)) c of
        None \<Rightarrow> c
      | Some d \<Rightarrow> d)"

definition ascii_fold :: "char \<Rightarrow> char" where
  \<comment> \<open>the folding under which the store compares identifiers: ASCII capitals only\<close>
  "ascii_fold c =
     (case map_of (zip ''ABCDEFGHIJKLMNOPQRSTUVWXYZ'' ''abcdefghijklmnopqrstuvwxyz'') c of
        None \<Rightarrow> c
      | Some d \<Rightarrow> d)"

section \<open>Column Normalizer\<close>

text \<open>
  \<open>_normalize_column_name\<close>, with what it prints: the first component is the list of
  lines written by the debugging branch at the end of the function. The assignment
  \<open>normalized = normalized\<close> under the test for the substring \<open>date\<close> changes nothing
  and has no counterpart here.
\<close>

definition normalize_column_name_io :: "string \<Rightarrow> string list \<times> string" where
  "normalize_column_name_io col_name =
     (let normalized = sub_special col_name;
          normalized = strip_underscores normalized;
          normalized = collapse_underscores normalized;
          normalized = map lower_char normalized;
          normalized =
            (if normalized = ''date'' then ''date_col''
             else if normalized \<in> set [''from'', ''to'', ''text''] then ''col_'' @ normalized
             else normalized);
          out =
            (if normalized = ''text''
             then [''Debug info for column '' @ col_name,
                   ''Original: '' @ col_name,
                   ''Normalized: '' @ normalized]
             else [])
      in (out, normalized))"

definition normalize_column_name :: "string \<Rightarrow> string" where
  "normalize_column_name col_name = snd (normalize_column_name_io col_name)"

subsection \<open>The normalizer as the specification words it\<close>

text \<open>
  A second definition, following the specification's sentence step by step: replace
  every character outside \<open>[A-Za-z0-9_]\<close> with an underscore, strip leading and trailing
  underscores, collapse runs of underscores to one, lowercase, then remap the four
  reserved words.
\<close>

definition spec_safe_char :: "char \<Rightarrow> char" where
  "spec_safe_char c =
     (if c \<in> set ''ABCDEFGHIJKLMNOPQRSTUVWXYZabcdefghijklmnopqrstuvwxyz0123456789_''
      then c else CHR ''_'')"

fun spec_drop_trailing :: "string \<Rightarrow> string" where
  "spec_drop_trailing [] = []"
| "spec_drop_trailing (c # cs) =
     (let r = spec_drop_trailing cs in if r = [] \<and> c = CHR ''_'' then [] else c # r)"

fun spec_drop_leading :: "string \<Rightarrow> string" where
  "spec_drop_leading [] = []"
| "spec_drop_leading (c # cs) = (if c = CHR ''_'' then spec_drop_leading cs else c # cs)"

fun spec_collapse :: "string \<Rightarrow> string" where
  "spec_collapse (c # d # cs) =
     (if c = CHR ''_'' \<and> d = CHR ''_'' then spec_collapse (d # cs)
      else c # spec_collapse (d # cs))"
| "spec_collapse cs = cs"

definition spec_remap :: "string \<Rightarrow> string" where
  "spec_remap n =
     (case map_of [(''date'', ''date_col''), (''from'', ''col_from''),
                   (''to'', ''col_to''), (''text'', ''col_text'')] n of
        None \<Rightarrow> n
      | Some r \<Rightarrow> r)"

definition spec_normalize :: "string \<Rightarrow> string" where
  "spec_normalize h =
     spec_remap (map lower_char
       (spec_collapse (spec_drop_trailing (spec_drop_leading (map spec_safe_char h)))))"

section \<open>Frames: the parsed table\<close>

text \<open>
  A cell of a parsed table is its field text, or \<open>None\<close> when the parser read the field
  as missing (NaN, \<open>None\<close>); the conversion of numeric text into numbers is not modelled.
  Every column of a frame carries the dtype the parsing library gave it.
\<close>

type_synonym cell = "string option"

datatype dtype = Int64 | Float64 | Bool | Datetime64 | Object

datatype sql_type = INTEGER | REAL | TIMESTAMP | TEXT

record series =
  dtype :: dtype
  cells :: "cell list"

record frame =
  col_dtypes :: "(string \<times> dtype) list"
  rows :: "cell list list"

definition columns :: "frame \<Rightarrow> string list" where
  "columns df = map fst (col_dtypes df)"

text \<open>
  The exceptions the stages raise. All of them are subclasses of \<open>Exception\<close>;
  \<open>ParserError\<close> is \<open>pandas.errors.ParserError\<close> and \<open>SqliteError\<close> stands for
  \<open>sqlite3.Error\<close> and its subclasses.
\<close>

datatype exn =
  ParserError | UnicodeDecodeError | EmptyDataError | ValueError | IndexError
  | AttributeError | KeyError | SqliteError | OSError | UnicodeEncodeError

fun cell_at :: "cell list \<Rightarrow> nat \<Rightarrow> cell" where
  "cell_at [] i = None"
| "cell_at (v # vs) 0 = v"
| "cell_at (v # vs) (Suc i) = cell_at vs i"

definition getitem :: "frame \<Rightarrow> string \<Rightarrow> exn + series" where
  \<comment> \<open>\<open>df[col]\<close> followed by \<open>.dtype\<close>: a label that occurs twice selects a
      sub-frame, which has no attribute \<open>dtype\<close>\<close>
  "getitem df col =
     (case filter (\<lambda>(l, d). l = col) (col_dtypes df) of
        [] \<Rightarrow> Inl KeyError
      | [(l, d)] \<Rightarrow>
          Inr \<lparr>dtype = d,
               cells = map (\<lambda>r. cell_at r (length (takeWhile (\<lambda>l. l \<noteq> col) (columns df))))
                         (rows df)\<rparr>
      | _ \<Rightarrow> Inl AttributeError)"

section \<open>Type Inferencer\<close>

definition is_integer_dtype :: "dtype \<Rightarrow> bool" where
  "is_integer_dtype d = (d = Int64)"

definition is_float_dtype :: "dtype \<Rightarrow> bool" where
  "is_float_dtype d = (d = Float64)"

definition is_datetime64_any_dtype :: "dtype \<Rightarrow> bool" where
  "is_datetime64_any_dtype d = (d = Datetime64)"

definition infer_data_type :: "series \<Rightarrow> sql_type" where
  "infer_data_type s =
     (if is_integer_dtype (dtype s) then INTEGER
      else if is_float_dtype (dtype s) then REAL
      else if is_datetime64_any_dtype (dtype s) then TIMESTAMP
      else TEXT)"

subsection \<open>The frame of a successful parse\<close>

text \<open>
  The result of one successful \<open>read_csv\<close> call: the header row (made unique by the
  library, which renames a repeated header) and the data rows, missing fields as
  \<open>None\<close>. The dtype of each column is the library's choice and is given with the
  file, in header order; a column it does not list is an \<open>object\<close> column. The frame
  pads or cuts every row to the header's width.
\<close>

record raw_table =
  headers :: "string list"
  body :: "cell list list"

definition fit_row :: "nat \<Rightarrow> cell list \<Rightarrow> cell list" where
  "fit_row w r = map (cell_at r) [0 ..< w]"

definition dtype_at :: "dtype list \<Rightarrow> nat \<Rightarrow> dtype" where
  "dtype_at ds i = (if i < length ds then ds ! i else Object)"

definition read_csv_frame :: "dtype list \<Rightarrow> raw_table \<Rightarrow> frame" where
  "read_csv_frame ds t =
     (let w = length (headers t)
      in \<lparr>col_dtypes = map (\<lambda>i. (headers t ! i, dtype_at ds i)) [0 ..< w],
          rows = map (fit_row w) (body t)\<rparr>)"

section \<open>Parse Strategy Chain\<close>

text \<open>
  What the environment does with one source file. \<open>read_csv\<close> gives the outcome of the
  library's parser under each of the six configurations the program tries: a table or
  the exception raised; \<open>read_csv_dtypes\<close> gives the dtypes of the columns of that
  table. \<open>readlines\<close> is the outcome of opening the file as UTF-8 text and reading its
  lines, for the manual fallback. \<open>insert_fault\<close> is the index of the first data row,
  if any, at which the store fails during the batched insert (a full disk, a database
  locked by another process), with the exception raised there. \<open>print_fault\<close> is the
  exception, if any, that writing a line with the file's name to the console raises (a
  name the console's encoding cannot encode).
\<close>

datatype strategy =
  Default_utf8 | Semicolon_utf8 | Quotechar_utf8
  | Default_latin1 | Quotechar_latin1 | Semicolon_latin1

record source_file =
  stem :: string
  read_csv :: "strategy \<Rightarrow> exn + raw_table"
  read_csv_dtypes :: "strategy \<Rightarrow> dtype list"
  readlines :: "exn + string list"
  insert_fault :: "(nat \<times> exn) option"
  print_fault :: "exn option"

definition strategies :: "strategy list" where
  \<comment> \<open>the order of the nested \<open>try\<close> blocks\<close>
  "strategies =
     [Default_utf8, Semicolon_utf8, Quotechar_utf8,
      Default_latin1, Quotechar_latin1, Semicolon_latin1]"

subsection \<open>The manual fallback\<close>

definition is_space :: "char \<Rightarrow> bool" where
  \<comment> \<open>the characters \<open>str.strip()\<close> removes, among the code points below 256\<close>
  "is_space c =
     (let n = (of_char c :: nat)
      in (9 \<le> n \<and> n \<le> 13) \<or> (28 \<le> n \<and> n \<le> 32) \<or> n = 133 \<or> n = 160)"

definition strip :: "string \<Rightarrow> string" where
  "strip s = rev (dropWhile is_space (rev (dropWhile is_space s)))"

text \<open>
  The separator is a comma followed by a rest of the line that matches
  \<open>[^"']*"[^"']*"[^"']*"[^"]*$\<close> or \<open>[^"]*$\<close>. \<open>lookahead_quoted n\<close> reads the first
  alternative with \<open>n\<close> double quotes still to come; \<open>CHR 0x22\<close> is the double quote and
  \<open>CHR 0x27\<close> the single quote.
\<close>

fun lookahead_quoted :: "nat \<Rightarrow> string \<Rightarrow> bool" where
  "lookahead_quoted n [] = (n = 0)"
| "lookahead_quoted n (c # cs) =
     (if n = 0 then c \<noteq> CHR 0x22 \<and> lookahead_quoted 0 cs
      else if c = CHR 0x22 then lookahead_quoted (n - 1) cs
      else c \<noteq> CHR 0x27 \<and> lookahead_quoted n cs)"

definition lookahead :: "string \<Rightarrow> bool" where
  "lookahead rest = (lookahead_quoted 3 rest \<or> list_all (\<lambda>c. c \<noteq> CHR 0x22) rest)"

fun split_fields :: "string \<Rightarrow> string \<Rightarrow> string list" where
  \<comment> \<open>\<open>re.split\<close>: the first argument is the field read so far, reversed\<close>
  "split_fields acc [] = [rev acc]"
| "split_fields acc (c # cs) =
     (if c = CHR '','' \<and> lookahead cs then rev acc # split_fields [] cs
      else split_fields (c # acc) cs)"

definition re_split :: "string \<Rightarrow> string list" where
  "re_split line = split_fields [] line"

definition data_frame :: "string list list \<Rightarrow> string list \<Rightarrow> exn + frame" where
  \<comment> \<open>\<open>pd.DataFrame(data, columns=cols)\<close> on lists of strings: the widest row must have
      as many fields as there are columns, shorter rows are filled with \<open>None\<close>, and
      every column has dtype \<open>object\<close>\<close>
  "data_frame data cols =
     (let w = length cols
      in if data \<noteq> [] \<and> fold max (map length data) 0 \<noteq> w then Inl ValueError
         else Inr \<lparr>col_dtypes = map (\<lambda>c. (c, Object)) cols,
                   rows = map (\<lambda>r. fit_row w (map Some r)) data\<rparr>)"

datatype origin = Via strategy | Manual

datatype parse_result =
  Parsed origin frame
  | Skipped exn   \<comment> \<open>the manual fallback failed: its handler goes to the next file\<close>
  | Raised exn    \<comment> \<open>an exception no inner handler takes: it reaches the per-file handler\<close>

definition manual_fallback :: "source_file \<Rightarrow> parse_result" where
  "manual_fallback sf =
     (case readlines sf of
        Inl e \<Rightarrow> Skipped e
      | Inr ls \<Rightarrow>
          (let lines = map strip (filter (\<lambda>l. strip l \<noteq> []) ls);
               data = map re_split lines
           in case data of
                [] \<Rightarrow> Skipped IndexError
              | hdr # rest \<Rightarrow>
                  (case data_frame rest hdr of
                     Inl e \<Rightarrow> Skipped e
                   | Inr df \<Rightarrow> Parsed Manual df)))"

fun parse_chain :: "source_file \<Rightarrow> strategy list \<Rightarrow> parse_result" where
  \<comment> \<open>each \<open>except pd.errors.ParserError\<close> takes that exception only\<close>
  "parse_chain sf [] = manual_fallback sf"
| "parse_chain sf (s # ss) =
     (case read_csv sf s of
        Inr t \<Rightarrow> Parsed (Via s) (read_csv_frame (read_csv_dtypes sf s) t)
      | Inl e \<Rightarrow> if e = ParserError then parse_chain sf ss else Raised e)"

definition parse_file :: "source_file \<Rightarrow> parse_result" where
  "parse_file sf = parse_chain sf strategies"

definition dropna_first :: "frame \<Rightarrow> frame" where
  \<comment> \<open>\<open>df.dropna(subset=[df.columns[0]])\<close> under the test \<open>len(df.columns) > 0\<close>: a row
      goes when a column carrying the first label is missing in it\<close>
  "dropna_first df =
     (case columns df of
        [] \<Rightarrow> df
      | c0 # _ \<Rightarrow>
          df\<lparr>rows :=
               filter (\<lambda>r. \<not> list_ex (\<lambda>(l, v). l = c0 \<and> v = None) (zip (columns df) r))
                 (rows df)\<rparr>)"

section \<open>The store\<close>

text \<open>
  The database seen through one connection of the \<open>sqlite3\<close> module in its default
  transaction mode: \<open>committed\<close> is what the file holds and other readers see,
  \<open>current\<close> is what this connection sees. A schema statement outside a transaction
  takes effect at once; an insert opens a transaction, which stays open until
  \<open>commit\<close>. Nothing in the program rolls back. A table is known by its name as the
  store folds it (ASCII capitals lowered); the names the program passes are lowered
  already. The program puts the name between double quotes without escaping it, so a
  name that holds a double quote ends the identifier early and the rest of the name is
  read as SQL; the store refuses such a statement as malformed (a name whose rest
  happens to read as well-formed SQL is not modelled). The store also refuses to create
  a table whose name starts with \<open>sqlite_\<close>, a table of more than 2000 columns and a
  table with a repeated column name.
\<close>

record table =
  schema :: "(string \<times> sql_type) list"
  content :: "cell list list"

type_synonym db = "string \<rightharpoonup> table"

record sqlite_connection =
  committed :: db
  current :: db
  in_transaction :: bool

text \<open>
  The events of a run, recorded in the order they happen: the opening and the closing of
  the connection, the start of a file and its outcome, and the statements the store
  has carried out (an insert is recorded row by row).
\<close>

datatype event =
  Opened
  | Started string
  | Dropped string
  | Created string
  | Inserted string "cell list"
  | Committed
  | Loaded string
  | Unparsable string exn
  | Failed string exn
  | Closed

record processor =
  connection :: sqlite_connection
  column_mapping :: "(string \<times> string) list"
  events :: "event list"

definition emit :: "event list \<Rightarrow> processor \<Rightarrow> processor" where
  "emit es p = p\<lparr>events := events p @ es\<rparr>"

definition execute_ddl :: "(db \<Rightarrow> db) \<Rightarrow> sqlite_connection \<Rightarrow> sqlite_connection" where
  "execute_ddl f c =
     (let d = f (current c)
      in c\<lparr>current := d, committed := (if in_transaction c then committed c else d)\<rparr>)"

definition malformed_name :: "string \<Rightarrow> bool" where
  "malformed_name t = (CHR 0x22 \<in> set t)"

definition reserved_name :: "string \<Rightarrow> bool" where
  "reserved_name t = (map ascii_fold (take 7 t) = ''sqlite_'')"

definition execute_drop :: "string \<Rightarrow> sqlite_connection \<Rightarrow> exn + sqlite_connection" where
  \<comment> \<open>\<open>DROP TABLE IF EXISTS "t"\<close>\<close>
  "execute_drop t c =
     (if malformed_name t then Inl SqliteError
      else Inr (execute_ddl (\<lambda>d. d(t := None)) c))"

definition create_refused :: "string \<Rightarrow> (string \<times> sql_type) list \<Rightarrow> bool" where
  \<comment> \<open>the store compares the column names of a new table without regard to ASCII case\<close>
  "create_refused t cols =
     (reserved_name t \<or> 2000 < length cols
      \<or> \<not> distinct (map (\<lambda>(n, ty). map ascii_fold n) cols))"

definition execute_create ::
  "string \<Rightarrow> (string \<times> sql_type) list \<Rightarrow> sqlite_connection \<Rightarrow> exn + sqlite_connection" where
  \<comment> \<open>\<open>CREATE TABLE IF NOT EXISTS "t" (...)\<close>: a malformed name and an empty column
      list are syntax errors; the reserved prefix is refused before the store looks for
      the table; the columns are checked only when the table is made\<close>
  "execute_create t cols c =
     (if malformed_name t \<or> cols = [] then Inl SqliteError
      else if reserved_name t then Inl SqliteError
      else if current c t \<noteq> None then Inr c
      else if create_refused t cols then Inl SqliteError
      else Inr (execute_ddl (\<lambda>d. d(t \<mapsto> \<lparr>schema = cols, content = []\<rparr>)) c))"

definition commit :: "sqlite_connection \<Rightarrow> sqlite_connection" where
  "commit c = c\<lparr>committed := current c, in_transaction := False\<rparr>"

definition table_info :: "db \<Rightarrow> string \<Rightarrow> string list" where
  \<comment> \<open>the names \<open>PRAGMA table_info(t)\<close> lists: none for a table that does not exist\<close>
  "table_info d t = (case d t of None \<Rightarrow> [] | Some tb \<Rightarrow> map fst (schema tb))"

definition insert_rows :: "string \<Rightarrow> cell list list \<Rightarrow> db \<Rightarrow> db" where
  "insert_rows t rs d =
     (case d t of None \<Rightarrow> d | Some tb \<Rightarrow> d(t \<mapsto> tb\<lparr>content := content tb @ rs\<rparr>))"

definition executemany ::
  "string \<Rightarrow> cell list list \<Rightarrow> (nat \<times> exn) option \<Rightarrow> sqlite_connection
     \<Rightarrow> exn option \<times> cell list list \<times> sqlite_connection" where
  \<comment> \<open>the rows go in one by one inside a transaction; at a fault the rows before it
      stay inserted and uncommitted. The result names the rows that went in\<close>
  "executemany t data fault c =
     (let done = (case fault of None \<Rightarrow> data | Some (k, e) \<Rightarrow> take k data);
          err = (case fault of
                   None \<Rightarrow> None
                 | Some (k, e) \<Rightarrow> if k < length data then Some e else None)
      in (err, done, c\<lparr>current := insert_rows t done (current c), in_transaction := True\<rparr>))"

section \<open>Schema Manager\<close>

definition sql_table_name :: "string \<Rightarrow> string" where
  \<comment> \<open>\<open>table_name.replace(' ', '_')\<close>, the identifier put between double quotes\<close>
  "sql_table_name n = map (\<lambda>c. if c = CHR '' '' then CHR ''_'' else c) n"

fun build_columns ::
  "frame \<Rightarrow> string list \<Rightarrow> (string \<times> string) list \<Rightarrow> (string \<times> sql_type) list
     \<Rightarrow> (string \<times> string) list \<times> (exn + (string \<times> sql_type) list)" where
  \<comment> \<open>the loop over \<open>df.columns\<close>: the mapping is assigned before the dtype is read, so
      it keeps the entry of the column at which an exception is raised\<close>
  "build_columns df [] m cs = (m, Inr cs)"
| "build_columns df (col # rest) m cs =
     (let normalized_col = normalize_column_name col;
          m = AList.update col normalized_col m
      in case getitem df col of
           Inl e \<Rightarrow> (m, Inl e)
         | Inr s \<Rightarrow> build_columns df rest m (cs @ [(normalized_col, infer_data_type s)]))"

definition create_table :: "frame \<Rightarrow> string \<Rightarrow> processor \<Rightarrow> exn option \<times> processor" where
  \<comment> \<open>the two debugging blocks compare the quoted table name with names that are not
      quoted alike, so they never run\<close>
  "create_table df table_name p =
     (let t = sql_table_name table_name;
          (m, r) = build_columns df (columns df) [] [];
          p = p\<lparr>column_mapping := m\<rparr>
      in case r of
           Inl e \<Rightarrow> (Some e, p)
         | Inr cols \<Rightarrow>
             (case execute_drop t (connection p) of
                Inl e \<Rightarrow> (Some e, p)
              | Inr c \<Rightarrow>
                  (let p = emit [Dropped t] (p\<lparr>connection := c\<rparr>)
                   in case execute_create t cols (connection p) of
                        Inl e \<Rightarrow> (Some e, p)
                      | Inr c \<Rightarrow>
                          (None, emit [Created t, Committed] (p\<lparr>connection := commit c\<rparr>)))))"

section \<open>Row Loader\<close>

fun normalized_cols_io :: "(string \<times> string) list \<Rightarrow> string list \<Rightarrow> string list \<times> string list" where
  \<comment> \<open>the first loop of \<open>_insert_data\<close>, with what it prints\<close>
  "normalized_cols_io m [] = ([], [])"
| "normalized_cols_io m (col # rest) =
     (let (o1, n) = (case map_of m col of
                       Some n \<Rightarrow> ([], n)
                     | None \<Rightarrow> normalize_column_name_io col);
          (o2, ns) = normalized_cols_io m rest
      in (o1 @ o2, n # ns))"

definition orig_col :: "(string \<times> string) list \<Rightarrow> string \<Rightarrow> string" where
  \<comment> \<open>\<open>next((k for k, v in self.column_mapping.items() if v == col), col)\<close>\<close>
  "orig_col m col = (case find (\<lambda>(k, v). v = col) m of Some (k, v) \<Rightarrow> k | None \<Rightarrow> col)"

definition row_get :: "string list \<Rightarrow> cell list \<Rightarrow> string \<Rightarrow> cell" where
  \<comment> \<open>\<open>row.get(label)\<close>: \<open>None\<close> for a label the row does not have\<close>
  "row_get labels r k = (case map_of (zip labels r) k of Some v \<Rightarrow> v | None \<Rightarrow> None)"

definition row_data ::
  "(string \<times> string) list \<Rightarrow> string list \<Rightarrow> string list \<Rightarrow> cell list \<Rightarrow> cell list" where
  "row_data m labels db_column_names r =
     map (\<lambda>col. row_get labels r (orig_col m col)) db_column_names"

definition load_rows ::
  "frame \<Rightarrow> string \<Rightarrow> (nat \<times> exn) option \<Rightarrow> processor \<Rightarrow> exn option \<times> processor" where
  \<comment> \<open>\<open>_insert_data\<close> from the read of the store's column names on. Without column
      names the insert statement has an empty column list and is refused\<close>
  "load_rows df table_name fault p =
     (let t = sql_table_name table_name;
          db_column_names = table_info (current (connection p)) t;
          data = map (row_data (column_mapping p) (columns df) db_column_names) (rows df)
      in if db_column_names = [] then (Some SqliteError, p)
         else
           (case executemany t data fault (connection p) of
              (Some e, done, c) \<Rightarrow> (Some e, emit (map (Inserted t) done) (p\<lparr>connection := c\<rparr>))
            | (None, done, c) \<Rightarrow>
                (None, emit (map (Inserted t) done @ [Committed]) (p\<lparr>connection := commit c\<rparr>))))"

definition insert_data ::
  "frame \<Rightarrow> string \<Rightarrow> (nat \<times> exn) option \<Rightarrow> processor
     \<Rightarrow> string list \<times> exn option \<times> processor" where
  \<comment> \<open>\<open>_insert_data\<close>: the lines printed while \<open>normalized_cols\<close> is built, then the load\<close>
  "insert_data df table_name fault p =
     (let (out, normalized_cols) = normalized_cols_io (column_mapping p) (columns df)
      in (out, load_rows df table_name fault p))"

definition insert_data_without_normalized_cols ::
  "frame \<Rightarrow> string \<Rightarrow> (nat \<times> exn) option \<Rightarrow> processor
     \<Rightarrow> string list \<times> exn option \<times> processor" where
  \<comment> \<open>\<open>_insert_data\<close> with the loop that builds \<open>normalized_cols\<close> removed\<close>
  "insert_data_without_normalized_cols df table_name fault p =
     ([], load_rows df table_name fault p)"

section \<open>Orchestrator\<close>

datatype outcome =
  Normal          \<comment> \<open>the body ran to its end\<close>
  | Skip exn      \<comment> \<open>the \<open>continue\<close> in the handler of the manual fallback\<close>
  | Exception exn \<comment> \<open>an exception left the body\<close>

definition process_file_body :: "source_file \<Rightarrow> processor \<Rightarrow> outcome \<times> processor" where
  \<comment> \<open>the body of the per-file \<open>try\<close>. The library's parser returns a frame or raises,
      so the test \<open>df is None\<close> never holds after it\<close>
  "process_file_body sf p =
     (case parse_file sf of
        Skipped e \<Rightarrow> (Skip e, p)
      | Raised e \<Rightarrow> (Exception e, p)
      | Parsed via df \<Rightarrow>
          (let df = dropna_first df;
               table_name = map lower_char (stem sf)
           in case create_table df table_name p of
                (Some e, p) \<Rightarrow> (Exception e, p)
              | (None, p) \<Rightarrow>
                  (case insert_data df table_name (insert_fault sf) p of
                     (out, Some e, p) \<Rightarrow> (Exception e, p)
                   | (out, None, p) \<Rightarrow> (Normal, p))))"

definition process_file :: "source_file \<Rightarrow> processor \<Rightarrow> processor" where
  \<comment> \<open>one turn of the loop for a file whose name the console can write:
      \<open>except Exception\<close> takes whatever the body raises, and the loop goes on to the
      next file\<close>
  "process_file sf p =
     (case process_file_body sf (emit [Started (stem sf)] p) of
        (Normal, p) \<Rightarrow> emit [Loaded (stem sf)] p
      | (Skip e, p) \<Rightarrow> emit [Unparsable (stem sf) e] p
      | (Exception e, p) \<Rightarrow> emit [Failed (stem sf) e] p)"

datatype run = Fatal exn | Completed processor

definition connect :: "db \<Rightarrow> processor" where
  \<comment> \<open>the processor as \<open>__init__\<close> leaves it, with the connection just opened\<close>
  "connect d =
     \<lparr>connection = \<lparr>committed = d, current = d, in_transaction = False\<rparr>,
      column_mapping = [],
      events = [Opened]\<rparr>"

text \<open>
  Every path through the body writes a line with the file's name to the console before
  it reaches the store: after the first \<open>read_csv\<close> returns (line 184), in the handler
  of its \<open>ParserError\<close> (line 186), or, for any other exception, in the per-file handler
  (line 239). When that write raises, the exception is raised inside the per-file
  \<open>try\<close> or its handler; the handler takes the first and writes the name itself, which
  raises again, and nothing takes the second: it leaves the loop and the function.
\<close>

definition loop_turn :: "source_file \<Rightarrow> processor \<Rightarrow> exn option \<times> processor" where
  \<comment> \<open>one turn of the loop with the console: \<open>Some e\<close> when \<open>e\<close> leaves the loop\<close>
  "loop_turn sf p =
     (case print_fault sf of
        None \<Rightarrow> (None, process_file sf p)
      | Some e \<Rightarrow> (Some e, emit [Started (stem sf)] p))"

fun process_files :: "source_file list \<Rightarrow> processor \<Rightarrow> exn option \<times> processor" where
  "process_files [] p = (None, p)"
| "process_files (sf # fs) p =
     (case loop_turn sf p of
        (Some e, q) \<Rightarrow> (Some e, q)
      | (None, q) \<Rightarrow> process_files fs q)"

definition process_directory :: "exn + db \<Rightarrow> source_file list \<Rightarrow> run" where
  \<comment> \<open>the first argument is the outcome of \<open>sqlite3.connect\<close>: an exception, or the
      database the file holds; the second the files found, in the order of discovery.
      \<open>Fatal e\<close>: the function ends with the exception \<open>e\<close>, and \<open>close\<close> is not
      reached\<close>
  "process_directory opened csv_files =
     (case opened of
        Inl e \<Rightarrow> Fatal e
      | Inr d \<Rightarrow>
          (case process_files csv_files (connect d) of
             (Some e, q) \<Rightarrow> Fatal e
           | (None, q) \<Rightarrow> Completed (emit [Closed] q)))"

section \<open>Notions used in the statements\<close>

definition sql_column :: "string \<times> dtype \<Rightarrow> string \<times> sql_type" where
  \<comment> \<open>the column definition the Schema Manager writes for a header and its dtype\<close>
  "sql_column = (\<lambda>(h, d). (normalize_column_name h, infer_data_type \<lparr>dtype = d, cells = []\<rparr>))"

definition loaded ::
  "string \<Rightarrow> (string \<times> sql_type) list \<Rightarrow> cell list list \<Rightarrow> (nat \<times> exn) option \<Rightarrow> db
     \<Rightarrow> sqlite_connection" where
  \<comment> \<open>the connection after table \<open>t\<close> has been recreated with the columns \<open>cols\<close> in the
      database \<open>d\<close> and the batch \<open>data\<close> has been inserted under the fault \<open>fault\<close>\<close>
  "loaded t cols data fault d =
     (let empty = d(t \<mapsto> \<lparr>schema = cols, content = []\<rparr>);
          done = (case fault of None \<Rightarrow> data | Some (k, e) \<Rightarrow> take k data);
          full = d(t \<mapsto> \<lparr>schema = cols, content = done\<rparr>)
      in if (case fault of None \<Rightarrow> False | Some (k, e) \<Rightarrow> k < length data)
         then \<lparr>committed = empty, current = full, in_transaction = True\<rparr>
         else \<lparr>committed = full, current = full, in_transaction = False\<rparr>)"

definition store_event :: "event \<Rightarrow> bool" where
  "store_event e =
     (case e of
        Dropped t \<Rightarrow> True | Created t \<Rightarrow> True | Inserted t r \<Rightarrow> True | Committed \<Rightarrow> True
      | _ \<Rightarrow> False)"

definition file_outcome :: "string \<Rightarrow> event \<Rightarrow> bool" where
  "file_outcome s e =
     (case e of
        Loaded n \<Rightarrow> n = s | Unparsable n x \<Rightarrow> n = s | Failed n x \<Rightarrow> n = s
      | _ \<Rightarrow> False)"

definition file_segment :: "string \<Rightarrow> event list \<Rightarrow> bool" where
  \<comment> \<open>the events of one file: its start, events of the store, then its one outcome\<close>
  "file_segment s seg =
     (case seg of
        [] \<Rightarrow> False
      | e # es \<Rightarrow> e = Started s \<and> es \<noteq> [] \<and> list_all store_event (butlast es)
                 \<and> file_outcome s (last es))"

section \<open>Concrete inputs\<close>

text \<open>
  A file holding the byte \<open>0xE9\<close> (\<open>Caf\<close> followed by e acute in Latin-1) after the
  header \<open>name\<close>: not UTF-8, so every UTF-8 configuration and the UTF-8 read of the
  lines raise \<open>UnicodeDecodeError\<close>, while the Latin-1 configurations parse it.
\<close>

definition latin1_file :: source_file where
  "latin1_file =
     \<lparr>stem = ''contacts'',
      read_csv = (\<lambda>s. if s \<in> set [Default_utf8, Semicolon_utf8, Quotechar_utf8]
                       then Inl UnicodeDecodeError
                       else Inr \<lparr>headers = [''name''], body = [[Some (''Caf'' @ [CHR 0xE9])]]\<rparr>),
      read_csv_dtypes = (\<lambda>s. [Object]),
      readlines = Inl UnicodeDecodeError,
      insert_fault = None,
      print_fault = None\<rparr>"

text \<open>
  A file of three lines, \<open>a,b\<close>, \<open>,x\<close> and \<open>"open,y\<close>. The quote that is never closed
  makes the library's parser fail under all six configurations, so the manual fallback
  reads it.
\<close>

definition open_quote_file :: source_file where
  "open_quote_file =
     \<lparr>stem = ''notes'',
      read_csv = (\<lambda>s. Inl ParserError),
      read_csv_dtypes = (\<lambda>s. []),
      readlines = Inr [''a,b'' @ [CHR 0x0A], '',x'' @ [CHR 0x0A], [CHR 0x22] @ ''open,y'' @ [CHR 0x0A]],
      insert_fault = None,
      print_fault = None\<rparr>"

text \<open>
  A file whose two headers differ and normalize to the same identifier, and a parsed
  table with two such headers among three.
\<close>

definition email_file :: source_file where
  "email_file =
     \<lparr>stem = ''Emails'',
      read_csv = (\<lambda>s. Inr \<lparr>headers = [''Email!'', ''Email#''],
                             body = [[Some ''a@x.org'', Some ''b@x.org'']]\<rparr>),
      read_csv_dtypes = (\<lambda>s. [Object, Object]),
      readlines = Inl OSError,
      insert_fault = None,
      print_fault = None\<rparr>"

definition name_frame :: frame where
  "name_frame =
     \<lparr>col_dtypes = [(''First Name'', Object), (''first-name'', Object), (''Age'', Int64)],
      rows = [[Some ''Ann'', Some ''Bea'', Some ''7'']]\<rparr>"

text \<open>
  Two files in one run. The first has two data rows, and the store fails at the second
  one (row index 1), as it does when the disk is full; the second file is loaded without
  error.
\<close>

definition faulty_file :: source_file where
  "faulty_file =
     \<lparr>stem = ''first'',
      read_csv = (\<lambda>s. Inr \<lparr>headers = [''id''], body = [[Some ''1''], [Some ''2'']]\<rparr>),
      read_csv_dtypes = (\<lambda>s. [Int64]),
      readlines = Inl OSError,
      insert_fault = Some (1, SqliteError),
      print_fault = None\<rparr>"

definition sound_file :: source_file where
  "sound_file =
     \<lparr>stem = ''second'',
      read_csv = (\<lambda>s. Inr \<lparr>headers = [''k''], body = [[Some ''v'']]\<rparr>),
      read_csv_dtypes = (\<lambda>s. [Object]),
      readlines = Inl OSError,
      insert_fault = None,
      print_fault = None\<rparr>"

text \<open>
  A file the first configuration parses: the second of its three data rows has no value
  in the first column, the third none in the second column. The library reads the first
  column as floating point (whole numbers and a missing value) and the second as
  \<open>object\<close>.
\<close>

definition nulls_table :: raw_table where
  "nulls_table =
     \<lparr>headers = [''id'', ''note''],
      body = [[Some ''1'', Some ''kept''], [None, Some ''dropped''], [Some ''3'', None]]\<rparr>"

definition ids_file :: source_file where
  "ids_file =
     \<lparr>stem = ''ids'',
      read_csv = (\<lambda>s. Inr nulls_table),
      read_csv_dtypes = (\<lambda>s. [Float64, Object]),
      readlines = Inl OSError,
      insert_fault = None,
      print_fault = None\<rparr>"

definition ids_frame :: frame where
  "ids_frame = read_csv_frame [Float64, Object] nulls_table"

text \<open>
  Parsed tables: one with the headers \<open>A\<close> and \<open>B\<close>, and one whose headers \<open>From\<close>,
  \<open>Date\<close> and \<open>Msg Id\<close> normalize to \<open>col_from\<close>, \<open>date_col\<close> and \<open>msg_id\<close>.
\<close>

definition ab_frame :: frame where
  "ab_frame = \<lparr>col_dtypes = [(''A'', Object), (''B'', Object)], rows = [[Some ''1'', Some ''2'']]\<rparr>"


text \<open>
  A file with a column of dates and a column of whole numbers with a missing value.
  \<open>read_csv\<close> is not asked to parse dates, so the library reads the first column as
  \<open>object\<close>; it reads the second as floating point.
\<close>

definition dates_file :: source_file where
  "dates_file =
     \<lparr>stem = ''visits'',
      read_csv = (\<lambda>s. Inr \<lparr>headers = [''day'', ''count''],
                             body = [[Some ''2020-01-01'', Some ''1''],
                                     [Some ''2020-02-02'', None],
                                     [Some ''2020-03-03'', Some ''3'']]\<rparr>),
      read_csv_dtypes = (\<lambda>s. [Object, Float64]),
      readlines = Inl OSError,
      insert_fault = None,
      print_fault = None\<rparr>"

text \<open>
  A well-formed file whose name, \<open>caf\<close> followed by e acute, the console cannot write
  (an ASCII console): every write of the name raises \<open>UnicodeEncodeError\<close>.
\<close>

definition unprintable_file :: source_file where
  "unprintable_file =
     \<lparr>stem = ''caf'' @ [CHR 0xE9],
      read_csv = (\<lambda>s. Inr \<lparr>headers = [''k''], body = [[Some ''v'']]\<rparr>),
      read_csv_dtypes = (\<lambda>s. [Object]),
      readlines = Inl OSError,
      insert_fault = None,
      print_fault = Some UnicodeEncodeError\<rparr>"

text \<open>A database that already holds a table \<open>ids\<close>, of another shape, with one row.\<close>

definition stale_db :: db where
  "stale_db = [''ids'' \<mapsto> \<lparr>schema = [(''old'', TEXT)], content = [[Some ''stale'']]\<rparr>]"

lemmas parser_defs =
  parse_file_def strategies_def manual_fallback_def data_frame_def re_split_def lookahead_def
  strip_def is_space_def read_csv_frame_def fit_row_def dtype_at_def dropna_first_def
  columns_def

lemmas store_defs =
  execute_ddl_def execute_drop_def execute_create_def create_refused_def malformed_name_def
  reserved_name_def ascii_fold_def commit_def table_info_def insert_rows_def executemany_def
  emit_def

lemmas loader_defs =
  create_table_def sql_table_name_def getitem_def infer_data_type_def is_integer_dtype_def
  is_float_dtype_def is_datetime64_any_dtype_def insert_data_def load_rows_def orig_col_def
  row_get_def row_data_def

lemmas normalizer_defs =
  normalize_column_name_def normalize_column_name_io_def sub_special_def is_word_char_def
  strip_underscores_def lower_char_def latin1_capitals_def latin1_smalls_def

lemmas run_defs =
  process_directory_def connect_def process_file_def process_file_body_def loop_turn_def

section \<open>Properties of the Column Normalizer\<close>

lemma safe_char_enum: "(if is_word_char c then c else CHR ''_'') = spec_safe_char c"
  by (cases c) (simp add: is_word_char_def spec_safe_char_def Let_def)

lemma drop_leading_dropWhile: "spec_drop_leading s = dropWhile (\<lambda>c. c = CHR ''_'') s"
  by (induction s) auto

lemma drop_trailing_rev:
  "spec_drop_trailing s = rev (dropWhile (\<lambda>c. c = CHR ''_'') (rev s))"
  by (induction s) (auto simp: Let_def dropWhile_append)

lemma collapse_spec_collapse: "collapse_underscores s = spec_collapse s"
  by (induction s rule: spec_collapse.induct) auto

lemma remap_spec_remap:
  "(if n = ''date'' then ''date_col''
    else if n \<in> set [''from'', ''to'', ''text''] then ''col_'' @ n else n) = spec_remap n"
  by (auto simp: spec_remap_def)

lemma remap_never_text:
  "(if n = ''date'' then ''date_col''
    else if n \<in> set [''from'', ''to'', ''text''] then ''col_'' @ n else n) \<noteq> ''text''"
  by auto

lemma normalize_prints_nothing: "fst (normalize_column_name_io h) = []"
  unfolding normalize_column_name_io_def Let_def fst_conv
  using remap_never_text by (simp only: if_False)

lemma normalize_is_spec: "normalize_column_name h = spec_normalize h"
proof -
  have "sub_special h = map spec_safe_char h"
    unfolding sub_special_def using safe_char_enum by simp
  then show ?thesis
    unfolding normalize_column_name_def normalize_column_name_io_def Let_def snd_conv
      spec_normalize_def strip_underscores_def
    by (simp only: remap_spec_remap collapse_spec_collapse drop_leading_dropWhile
        drop_trailing_rev)
qed

text \<open>
  Claim C8. Column normalization is a function of the header string alone, and it is
  the function the specification describes: characters outside \<open>[A-Za-z0-9_]\<close> become
  underscores, leading and trailing underscores are stripped, runs of underscores are
  collapsed, the result is lowercased, and exactly \<open>date\<close>, \<open>from\<close>, \<open>to\<close> and \<open>text\<close>
  are remapped. It prints nothing. \<open>date\<close> yields \<open>date_col\<close>, \<open>login_date\<close> is left
  unchanged and \<open>From\<close> yields \<open>col_from\<close>.
\<close>

theorem normalize_column_name_refines_spec:
  "normalize_column_name_io h = ([], spec_normalize h)
   \<and> normalize_column_name h = spec_normalize h
   \<and> normalize_column_name ''date'' = ''date_col''
   \<and> normalize_column_name ''login_date'' = ''login_date''
   \<and> normalize_column_name ''From'' = ''col_from''"
proof -
  have io: "normalize_column_name_io h = ([], spec_normalize h)"
    using normalize_prints_nothing [of h] normalize_is_spec [of h]
    by (simp add: normalize_column_name_def prod_eq_iff)
  have ex: "spec_normalize ''date'' = ''date_col''"
    "spec_normalize ''login_date'' = ''login_date''"
    "spec_normalize ''From'' = ''col_from''"
    by (simp_all add: spec_normalize_def spec_remap_def spec_safe_char_def lower_char_def
        latin1_capitals_def latin1_smalls_def)
  show ?thesis
    using io ex by (simp add: normalize_is_spec)
qed

section \<open>Properties of the Type Inferencer\<close>

lemma infer_data_type_cases:
  "infer_data_type s =
     (case dtype s of
        Int64 \<Rightarrow> INTEGER | Float64 \<Rightarrow> REAL | Datetime64 \<Rightarrow> TIMESTAMP
      | Bool \<Rightarrow> TEXT | Object \<Rightarrow> TEXT)"
  by (cases "dtype s")
    (simp_all add: infer_data_type_def is_integer_dtype_def is_float_dtype_def
      is_datetime64_any_dtype_def)

text \<open>
  Claim C2, counterexample. The library reads the column of the two dates as \<open>object\<close>,
  and the column classifies as text, not timestamp. It reads a column of whole numbers
  with a missing value, and a column of missing values only, as floating point, and
  they classify as real, not integer and not text. A run on the file \<open>visits\<close>, with a
  column of dates and a column of whole numbers with a missing value, creates the
  table with a text and a real column.
\<close>

theorem column_classes_follow_dtype_not_values:
  "infer_data_type \<lparr>dtype = Object, cells = [Some ''2020-01-01'', Some ''2020-02-02'']\<rparr> = TEXT
   \<and> infer_data_type \<lparr>dtype = Float64, cells = [Some ''1'', None, Some ''3'']\<rparr> = REAL
   \<and> infer_data_type \<lparr>dtype = Float64, cells = [None, None]\<rparr> = REAL
   \<and> (case process_directory (Inr Map.empty) [dates_file] of
         Fatal e \<Rightarrow> False
       | Completed p \<Rightarrow>
           map_option schema (committed (connection p) ''visits'')
             = Some [(''day'', TEXT), (''count'', REAL)])"
  by code_simp

text \<open>
  Claim C2, amended. The Type Inferencer classifies a column by the dtype the parser gave
  it and does not inspect the values: an integer dtype gives integer, a floating dtype
  real, a datetime dtype timestamp and any other dtype text, whatever the values. A
  column read with an integer dtype, such as \<open>["1","2","3"]\<close>, classifies as integer;
  one read with a floating dtype, such as \<open>["1.0","2"]\<close>, as real; one read with the
  \<open>object\<close> dtype, such as \<open>["a","1"]\<close> or a column without rows, as text.
\<close>

theorem infer_data_type_by_dtype:
  "infer_data_type s =
     (case dtype s of
        Int64 \<Rightarrow> INTEGER | Float64 \<Rightarrow> REAL | Datetime64 \<Rightarrow> TIMESTAMP
      | Bool \<Rightarrow> TEXT | Object \<Rightarrow> TEXT)
   \<and> infer_data_type \<lparr>dtype = d, cells = vs\<rparr> = infer_data_type \<lparr>dtype = d, cells = ws\<rparr>
   \<and> infer_data_type \<lparr>dtype = Int64, cells = [Some ''1'', Some ''2'', Some ''3'']\<rparr> = INTEGER
   \<and> infer_data_type \<lparr>dtype = Float64, cells = [Some ''1.0'', Some ''2'']\<rparr> = REAL
   \<and> infer_data_type \<lparr>dtype = Object, cells = [Some ''a'', Some ''1'']\<rparr> = TEXT
   \<and> infer_data_type \<lparr>dtype = Object, cells = []\<rparr> = TEXT"
  using infer_data_type_cases [of s] by (simp add: infer_data_type_cases)

section \<open>Properties of the Parse Strategy Chain\<close>

lemma parse_latin1_file: "parse_file latin1_file = Raised UnicodeDecodeError"
  by (simp add: latin1_file_def parser_defs)

text \<open>
  Claim C3, the code at the failing input. The first configuration raises
  \<open>UnicodeDecodeError\<close>, which no handler of the chain takes: the parse ends there, the
  Latin-1 configurations are never tried although the fourth would parse the file, and
  the run records the file as failed and creates no table for it.
\<close>

theorem latin1_file_is_skipped:
  "read_csv latin1_file Default_latin1
     = Inr \<lparr>headers = [''name''], body = [[Some (''Caf'' @ [CHR 0xE9])]]\<rparr>
   \<and> parse_file latin1_file = Raised UnicodeDecodeError
   \<and> process_directory (Inr Map.empty) [latin1_file]
     = Completed
         \<lparr>connection = \<lparr>committed = Map.empty, current = Map.empty, in_transaction = False\<rparr>,
          column_mapping = [],
          events = [Opened, Started ''contacts'', Failed ''contacts'' UnicodeDecodeError, Closed]\<rparr>"
proof -
  have "process_directory (Inr Map.empty) [latin1_file]
     = Completed
         \<lparr>connection = \<lparr>committed = Map.empty, current = Map.empty, in_transaction = False\<rparr>,
          column_mapping = [],
          events = [Opened, Started ''contacts'', Failed ''contacts'' UnicodeDecodeError, Closed]\<rparr>"
  proof -
    have turn: "loop_turn latin1_file p = (None, process_file latin1_file p)" for p
      by (simp add: loop_turn_def latin1_file_def)
    have stem: "stem latin1_file = ''contacts''"
      by (simp add: latin1_file_def)
    show ?thesis
      by (simp add: process_directory_def turn process_file_def process_file_body_def
          parse_latin1_file connect_def emit_def stem)
  qed
  then show ?thesis
    using parse_latin1_file by (simp add: latin1_file_def)
qed

section \<open>Properties of the Row Loader\<close>

lemma normalized_cols_prints_nothing: "fst (normalized_cols_io m cols) = []"
proof (induction cols)
  case Nil
  then show ?case by simp
next
  case (Cons col rest)
  then show ?case
    using normalize_prints_nothing [of col]
    by (simp add: split_beta split: option.split)
qed

text \<open>
  Claim C10. The list \<open>normalized_cols\<close> is never used after it is built, and building
  it prints nothing: for every frame, table name, store fault and processor state,
  \<open>_insert_data\<close> gives the same output, the same exception or normal end and the same
  processor state as the function without that loop.
\<close>

theorem insert_data_ignores_normalized_cols:
  "insert_data df table_name fault p
     = insert_data_without_normalized_cols df table_name fault p"
  using normalized_cols_prints_nothing [of "column_mapping p" "columns df"]
  by (simp add: insert_data_def insert_data_without_normalized_cols_def split_beta)

section \<open>Properties of the first-column filter\<close>

lemma length_fit_row: "length (fit_row w r) = w"
  by (simp add: fit_row_def)

lemma read_csv_frame_width:
  "list_all (\<lambda>r. length r = length (columns (read_csv_frame ds t)))
     (rows (read_csv_frame ds t))"
  by (simp add: read_csv_frame_def columns_def Let_def list_all_iff length_fit_row)

lemma data_frame_width:
  "data_frame data cols = Inr df \<Longrightarrow> list_all (\<lambda>r. length r = length (columns df)) (rows df)"
  by (auto simp: data_frame_def columns_def Let_def list_all_iff length_fit_row split: if_splits)

lemma split_fields_nonempty: "split_fields acc s \<noteq> []"
  by (induction s arbitrary: acc) auto

lemma cell_at_nth: "cell_at xs i = (if i < length xs then xs ! i else None)"
  by (induction xs i rule: cell_at.induct) simp_all

lemma cell_at_fit_row: "i < w \<Longrightarrow> cell_at (fit_row w r) i = cell_at r i"
  by (simp add: fit_row_def cell_at_nth)

lemma data_frame_first_cell:
  assumes "data_frame data cols = Inr df" "cols \<noteq> []" "list_all (\<lambda>r. r \<noteq> []) data"
  shows "list_all (\<lambda>r. cell_at r 0 \<noteq> None) (rows df)"
proof -
  have "cell_at (map Some r) 0 \<noteq> None" if "r \<noteq> []" for r :: "string list"
    using that by (cases r) simp_all
  with assms show ?thesis
    by (auto simp: data_frame_def Let_def list_all_iff cell_at_fit_row split: if_splits)
qed

lemma data_frame_columns: "data_frame data cols = Inr df \<Longrightarrow> columns df = cols"
  by (auto simp: data_frame_def Let_def columns_def comp_def split: if_splits)

lemma manual_fallback_first_cell:
  assumes "manual_fallback sf = Parsed via df" "columns df \<noteq> []"
  shows "list_all (\<lambda>r. cell_at r 0 \<noteq> None) (rows df)"
proof -
  from assms(1) obtain z zs where
    f: "data_frame (map (re_split \<circ> strip) zs) (re_split (strip z)) = Inr df"
    by (auto simp: manual_fallback_def Let_def split: sum.splits list.splits)
  have "list_all (\<lambda>r. r \<noteq> []) (map (re_split \<circ> strip) zs)"
    using split_fields_nonempty by (simp add: list_all_iff re_split_def)
  moreover have "re_split (strip z) \<noteq> []"
    using data_frame_columns [OF f] assms(2) by auto
  ultimately show ?thesis
    using data_frame_first_cell [OF f] by simp
qed

lemma parse_chain_width:
  "parse_chain sf ss = Parsed via df \<Longrightarrow> list_all (\<lambda>r. length r = length (columns df)) (rows df)"
proof (induction ss)
  case Nil
  then show ?case
    by (auto simp: manual_fallback_def Let_def dest: data_frame_width
        split: sum.splits list.splits)
next
  case (Cons s ss)
  then show ?case
    using read_csv_frame_width by (auto split: sum.splits if_splits)
qed

lemma parse_chain_manual_first_cell:
  "parse_chain sf ss = Parsed Manual df \<Longrightarrow> columns df \<noteq> [] \<Longrightarrow>
     list_all (\<lambda>r. cell_at r 0 \<noteq> None) (rows df)"
proof (induction ss)
  case Nil
  then show ?case
    using manual_fallback_first_cell by simp
next
  case (Cons s ss)
  then show ?case
    by (auto split: sum.splits if_splits)
qed

lemma no_null_elsewhere:
  "c0 \<notin> set cs \<Longrightarrow> \<not> list_ex (\<lambda>(l, v). l = c0 \<and> v = None) (zip cs vs)"
  by (auto simp: list_ex_iff dest: set_zip_leftD)

lemma dropna_first_rows:
  assumes "columns df \<noteq> []" "distinct (columns df)"
    "list_all (\<lambda>r. length r = length (columns df)) (rows df)"
  shows "rows (dropna_first df) = filter (\<lambda>r. cell_at r 0 \<noteq> None) (rows df)"
proof -
  obtain c0 cs where cols: "columns df = c0 # cs"
    using assms(1) by (cases "columns df") auto
  then have fresh: "c0 \<notin> set cs"
    using assms(2) by simp
  have "(\<not> list_ex (\<lambda>(l, v). l = c0 \<and> v = None) (zip (c0 # cs) r)) = (cell_at r 0 \<noteq> None)"
    if "length r = length (c0 # cs)" for r
    using that no_null_elsewhere [OF fresh] by (cases r) auto
  then show ?thesis
    using assms(3) cols by (auto simp: dropna_first_def list_all_iff intro!: filter_cong)
qed

lemma parse_open_quote_file:
  "parse_file open_quote_file
     = Parsed Manual
         \<lparr>col_dtypes = [(''a'', Object), (''b'', Object)],
          rows = [[Some [], Some ''x''], [Some ([CHR 0x22] @ ''open''), Some ''y'']]\<rparr>"
  by (simp add: open_quote_file_def parser_defs)

text \<open>
  Claim C6, the code at the failing input. All six configurations of the library's
  parser fail on the file of the three lines \<open>a,b\<close>, \<open>,x\<close> and \<open>"open,y\<close>, and the manual
  fallback reads it. The first field of the data row \<open>,x\<close> is the empty string; the row
  is not dropped, and the run commits it to the table.
\<close>

theorem manual_fallback_keeps_empty_first_field:
  "parse_file open_quote_file
     = Parsed Manual
         \<lparr>col_dtypes = [(''a'', Object), (''b'', Object)],
          rows = [[Some [], Some ''x''], [Some ([CHR 0x22] @ ''open''), Some ''y'']]\<rparr>
   \<and> (case process_directory (Inr Map.empty) [open_quote_file] of
         Fatal e \<Rightarrow> False
       | Completed p \<Rightarrow>
           map_option content (committed (connection p) ''notes'')
             = Some [[Some [], Some ''x''], [Some ([CHR 0x22] @ ''open''), Some ''y'']])"
  by code_simp

text \<open>
  What the filter does on every parsed table with distinct headers: the rows whose
  first-column value is null go, all other rows stay, and the columns and their dtypes
  stay. The manual fallback reads every field as a string, never as null, so the filter
  removes no row of a table read by it.
\<close>

theorem dropna_first_drops_null_rows:
  assumes "parse_file sf = Parsed via df" "columns df \<noteq> []" "distinct (columns df)"
  shows "rows (dropna_first df) = filter (\<lambda>r. cell_at r 0 \<noteq> None) (rows df)
         \<and> col_dtypes (dropna_first df) = col_dtypes df
         \<and> (via = Manual \<longrightarrow> rows (dropna_first df) = rows df)"
proof -
  have w: "list_all (\<lambda>r. length r = length (columns df)) (rows df)"
    using assms(1) parse_chain_width by (simp add: parse_file_def)
  have r: "rows (dropna_first df) = filter (\<lambda>r. cell_at r 0 \<noteq> None) (rows df)"
    using dropna_first_rows [OF assms(2) assms(3) w] .
  have c: "col_dtypes (dropna_first df) = col_dtypes df"
    by (simp add: dropna_first_def split: list.split)
  have m: "rows (dropna_first df) = rows df" if "via = Manual"
    using that assms(1) assms(2) parse_chain_manual_first_cell [of sf strategies df] r
    by (simp add: parse_file_def list_all_iff)
  show ?thesis
    using r c m by simp
qed

theorem dropna_first_drops_null_rows_witness:
  "parse_file ids_file = Parsed (Via Default_utf8) ids_frame
   \<and> columns ids_frame = [''id'', ''note'']
   \<and> rows ids_frame
       = [[Some ''1'', Some ''kept''], [None, Some ''dropped''], [Some ''3'', None]]
   \<and> rows (dropna_first ids_frame) = [[Some ''1'', Some ''kept''], [Some ''3'', None]]"
proof -
  have p: "parse_file ids_file = Parsed (Via Default_utf8) ids_frame"
    by (simp add: ids_file_def ids_frame_def parse_file_def strategies_def)
  have c: "columns ids_frame = [''id'', ''note'']"
    by (simp add: ids_frame_def nulls_table_def parser_defs)
  have r: "rows ids_frame
       = [[Some ''1'', Some ''kept''], [None, Some ''dropped''], [Some ''3'', None]]"
    by (simp add: ids_frame_def nulls_table_def parser_defs)
  show ?thesis
    using dropna_first_drops_null_rows [OF p] p c r by simp
qed

section \<open>Properties of the Schema Manager\<close>

lemma filter_unique_label:
  "distinct (map fst xs) \<Longrightarrow> (col, d) \<in> set xs \<Longrightarrow> filter (\<lambda>(l, d). l = col) xs = [(col, d)]"
proof (induction xs)
  case Nil
  then show ?case by simp
next
  case (Cons x xs)
  obtain l e where x: "x = (l, e)" by (cases x)
  show ?case
  proof (cases "l = col")
    case True
    then have "col \<notin> fst ` set xs" using Cons.prems(1) x by simp
    then have absent: "(col, b) \<notin> set xs" for b
      by (metis fst_conv imageI)
    then have "filter (\<lambda>(l, d). l = col) xs = []"
      by (auto simp: filter_empty_conv)
    moreover have "d = e"
      using Cons.prems(2) x True absent by auto
    ultimately show ?thesis using x True by simp
  next
    case False
    then show ?thesis using Cons x by auto
  qed
qed

lemma getitem_distinct:
  assumes "distinct (columns df)" "(col, d) \<in> set (col_dtypes df)"
  shows "\<exists>vs. getitem df col = Inr \<lparr>dtype = d, cells = vs\<rparr>"
  using filter_unique_label [of "col_dtypes df" col d] assms
  by (simp add: getitem_def columns_def)

lemma update_fresh: "k \<notin> fst ` set m \<Longrightarrow> AList.update k v m = m @ [(k, v)]"
  by (induction m) auto

lemma build_columns_distinct:
  assumes "distinct (columns df)"
  shows "set xs \<subseteq> set (col_dtypes df) \<Longrightarrow> distinct (map fst xs) \<Longrightarrow>
     fst ` set xs \<inter> fst ` set m = {} \<Longrightarrow>
     build_columns df (map fst xs) m cs
       = (m @ map (\<lambda>(h, d). (h, normalize_column_name h)) xs, Inr (cs @ map sql_column xs))"
proof (induction xs arbitrary: m cs)
  case Nil
  then show ?case by simp
next
  case (Cons x xs)
  obtain h d where x: "x = (h, d)" by (cases x)
  then obtain vs where g: "getitem df h = Inr \<lparr>dtype = d, cells = vs\<rparr>"
    using getitem_distinct [OF assms, of h d] Cons.prems(1) by auto
  have u: "AList.update h (normalize_column_name h) m = m @ [(h, normalize_column_name h)]"
    using Cons.prems(3) x by (intro update_fresh) auto
  have i: "infer_data_type \<lparr>dtype = d, cells = vs\<rparr> = infer_data_type \<lparr>dtype = d, cells = []\<rparr>"
    by (simp add: infer_data_type_def)
  have "fst ` set xs \<inter> fst ` set (m @ [(h, normalize_column_name h)]) = {}"
    using Cons.prems(2,3) x by auto
  then have "build_columns df (map fst xs) (m @ [(h, normalize_column_name h)])
         (cs @ [(normalize_column_name h, infer_data_type \<lparr>dtype = d, cells = []\<rparr>)])
       = ((m @ [(h, normalize_column_name h)]) @ map (\<lambda>(h, d). (h, normalize_column_name h)) xs,
          Inr ((cs @ [(normalize_column_name h, infer_data_type \<lparr>dtype = d, cells = []\<rparr>)])
               @ map sql_column xs))"
    using Cons.IH Cons.prems(1,2) by simp
  then show ?case
    using x g u i by (simp add: sql_column_def Let_def)
qed

lemma build_columns_frame:
  assumes "distinct (columns df)"
  shows "build_columns df (columns df) [] []
       = (map (\<lambda>h. (h, normalize_column_name h)) (columns df), Inr (map sql_column (col_dtypes df)))"
  using build_columns_distinct [OF assms, of "col_dtypes df" "[]" "[]"] assms
  by (simp add: columns_def comp_def split_beta)

lemma build_columns_ok:
  "build_columns df cols m cs = (m', Inr r) \<Longrightarrow> col \<in> set cols \<Longrightarrow> \<exists>s. getitem df col = Inr s"
  by (induction cols arbitrary: m cs) (auto simp: Let_def split: sum.splits)

lemma getitem_once:
  assumes "getitem df col = Inr s"
  shows "length (filter (\<lambda>y. y = col) (columns df)) = 1"
proof -
  obtain x where f: "filter (\<lambda>(l, d). l = col) (col_dtypes df) = [x]"
    using assms by (auto simp: getitem_def split: list.splits)
  have "filter (\<lambda>y. y = col) (map fst (col_dtypes df))
      = map fst (filter (\<lambda>(l, d). l = col) (col_dtypes df))"
    by (simp add: filter_map comp_def case_prod_unfold)
  then show ?thesis
    using f by (simp add: columns_def)
qed

lemma once_distinct:
  "(\<And>x. x \<in> set xs \<Longrightarrow> length (filter (\<lambda>y. y = x) xs) = 1) \<Longrightarrow> distinct xs"
proof (induction xs)
  case Nil
  then show ?case by simp
next
  case (Cons a xs)
  have a: "filter (\<lambda>y. y = a) xs = []"
    using Cons.prems [of a] by simp
  then have fresh: "a \<notin> set xs"
    by (auto simp: filter_empty_conv)
  have "length (filter (\<lambda>y. y = x) xs) = 1" if "x \<in> set xs" for x
    using Cons.prems [of x] that fresh by (auto split: if_splits)
  then show ?case
    using Cons.IH fresh by simp
qed

lemma build_columns_labels:
  assumes "build_columns df (columns df) [] [] = (m, Inr r)"
  shows "distinct (columns df)"
  using build_columns_ok [OF assms] getitem_once [of df] by (intro once_distinct) blast

lemma ascii_fold_lower: "ascii_fold (lower_char c) = lower_char c"
proof -
  define caps where "caps = ''ABCDEFGHIJKLMNOPQRSTUVWXYZ'' @ latin1_capitals"
  define smalls where "smalls = ''abcdefghijklmnopqrstuvwxyz'' @ latin1_smalls"
  have len: "length caps = length smalls"
    by (simp add: caps_def smalls_def latin1_capitals_def latin1_smalls_def)
  have lower: "lower_char c = (case map_of (zip caps smalls) c of None \<Rightarrow> c | Some d \<Rightarrow> d)"
    by (simp only: lower_char_def caps_def smalls_def)
  have keep: "ascii_fold d = d" if "d \<notin> set ''ABCDEFGHIJKLMNOPQRSTUVWXYZ''" for d
    using that by (simp add: ascii_fold_def)
  have apart: "d \<notin> set ''ABCDEFGHIJKLMNOPQRSTUVWXYZ''" if "d \<in> set smalls" for d
    using that by (auto simp: smalls_def latin1_smalls_def)
  show ?thesis
  proof (cases "map_of (zip caps smalls) c")
    case None
    then have "c \<notin> fst ` set (zip caps smalls)"
      by (metis map_of_eq_None_iff)
    then have "c \<notin> set caps"
      using map_fst_zip [OF len] by (metis set_map)
    then have "c \<notin> set ''ABCDEFGHIJKLMNOPQRSTUVWXYZ''"
      by (simp add: caps_def)
    then show ?thesis
      using None keep by (simp add: lower)
  next
    case (Some d)
    then have "d \<in> set smalls"
      by (auto dest!: map_of_SomeD set_zip_rightD)
    then show ?thesis
      using Some keep apart by (simp add: lower)
  qed
qed

lemma fold_normalized: "map ascii_fold (normalize_column_name h) = normalize_column_name h"
proof -
  have idem: "map ascii_fold (map lower_char s) = map lower_char s" for s
    by (simp add: ascii_fold_lower)
  have lit: "map ascii_fold ''date_col'' = ''date_col''" "map ascii_fold ''col_from'' = ''col_from''"
    "map ascii_fold ''col_to'' = ''col_to''" "map ascii_fold ''col_text'' = ''col_text''"
    by (simp_all add: ascii_fold_def)
  show ?thesis
    unfolding normalize_column_name_def normalize_column_name_io_def Let_def snd_conv
    using idem lit by auto
qed

lemma sql_names:
  "map ((\<lambda>(n, ty). map ascii_fold n) \<circ> sql_column) xs = map normalize_column_name (map fst xs)"
  by (simp add: sql_column_def split_beta fold_normalized)

lemma create_refused_frame:
  "create_refused t (map sql_column (col_dtypes df))
     = (reserved_name t \<or> 2000 < length (columns df)
        \<or> \<not> distinct (map normalize_column_name (columns df)))"
proof -
  have eq: "map (\<lambda>(n, ty). map ascii_fold n) (map sql_column (col_dtypes df))
      = map normalize_column_name (columns df)"
    using sql_names [of "col_dtypes df"] by (simp add: columns_def)
  show ?thesis
    unfolding create_refused_def eq by (simp add: columns_def)
qed

text \<open>
  \<open>_create_table\<close> on a frame with distinct labels, statement by statement: a malformed
  name stops it at the \<open>DROP\<close>, with the store untouched; a reserved name, an empty
  column list, too many columns or a repeated column name stop it at the \<open>CREATE\<close>,
  after the old table went; otherwise the new table is there, empty and committed.
\<close>

lemma create_table_distinct_labels:
  assumes "distinct (columns df)"
  shows "create_table df n p =
     (let t = sql_table_name n;
          p1 = p\<lparr>column_mapping := map (\<lambda>h. (h, normalize_column_name h)) (columns df)\<rparr>;
          p2 = emit [Dropped t]
                 (p1\<lparr>connection := execute_ddl (\<lambda>d. d(t := None)) (connection p)\<rparr>);
          cols = map sql_column (col_dtypes df)
      in if malformed_name t then (Some SqliteError, p1)
         else if columns df = [] \<or> create_refused t cols then (Some SqliteError, p2)
         else (None,
               emit [Created t, Committed]
                 (p2\<lparr>connection :=
                       commit (execute_ddl (\<lambda>d. d(t \<mapsto> \<lparr>schema = cols, content = []\<rparr>))
                                 (connection p2))\<rparr>)))"
proof -
  have empty: "col_dtypes df = [] \<longleftrightarrow> columns df = []"
    by (simp add: columns_def)
  have gone: "current (execute_ddl (\<lambda>d. d(t := None)) c) t = None" for t c
    by (simp add: execute_ddl_def Let_def)
  show ?thesis
    by (simp add: create_table_def build_columns_frame [OF assms] Let_def execute_drop_def
        execute_create_def emit_def gone empty create_refused_def)
qed

lemma create_table_ok:
  assumes "create_table df n p = (None, q)"
  shows "distinct (columns df)"
    and "distinct (map normalize_column_name (columns df))"
    and "columns df \<noteq> []"
    and "column_mapping q = map (\<lambda>h. (h, normalize_column_name h)) (columns df)"
    and "current (connection q) (sql_table_name n)
           = Some \<lparr>schema = map sql_column (col_dtypes df), content = []\<rparr>"
    and "connection q =
           \<lparr>committed = (current (connection p))(sql_table_name n \<mapsto>
                          \<lparr>schema = map sql_column (col_dtypes df), content = []\<rparr>),
            current = (current (connection p))(sql_table_name n \<mapsto>
                          \<lparr>schema = map sql_column (col_dtypes df), content = []\<rparr>),
            in_transaction = False\<rparr>"
proof -
  obtain m r where b: "build_columns df (columns df) [] [] = (m, r)"
    by (cases "build_columns df (columns df) [] []")
  then obtain cols where "r = Inr cols"
    using assms by (cases r) (simp_all add: create_table_def Let_def)
  then show d: "distinct (columns df)"
    using b build_columns_labels by simp
  have form: "create_table df n p = (None, q)"
    using assms .
  show "distinct (map normalize_column_name (columns df))"
    using form unfolding create_table_distinct_labels [OF d]
    by (simp add: Let_def create_refused_frame split: if_splits)
  show "columns df \<noteq> []"
    using form unfolding create_table_distinct_labels [OF d]
    by (simp add: Let_def split: if_splits)
  show "column_mapping q = map (\<lambda>h. (h, normalize_column_name h)) (columns df)"
    using form unfolding create_table_distinct_labels [OF d]
    by (auto simp: Let_def emit_def split: if_splits)
  show "current (connection q) (sql_table_name n)
           = Some \<lparr>schema = map sql_column (col_dtypes df), content = []\<rparr>"
    using form unfolding create_table_distinct_labels [OF d]
    by (auto simp: Let_def emit_def commit_def execute_ddl_def split: if_splits)
  show "connection q =
           \<lparr>committed = (current (connection p))(sql_table_name n \<mapsto>
                          \<lparr>schema = map sql_column (col_dtypes df), content = []\<rparr>),
            current = (current (connection p))(sql_table_name n \<mapsto>
                          \<lparr>schema = map sql_column (col_dtypes df), content = []\<rparr>),
            in_transaction = False\<rparr>"
    using form unfolding create_table_distinct_labels [OF d]
    by (auto simp: Let_def emit_def commit_def execute_ddl_def split: if_splits)
qed

text \<open>
  Claim C1, counterexample. \<open>Email!\<close> and \<open>Email#\<close> both normalize to \<open>email\<close>. The
  mapping of the file holds the identifier twice, the store refuses the table, the file
  is recorded as failed and no table exists for it: there are not two distinct columns.
\<close>

theorem colliding_headers_share_one_identifier:
  "map normalize_column_name [''Email!'', ''Email#''] = [''email'', ''email'']
   \<and> (case process_directory (Inr Map.empty) [email_file] of
         Fatal e \<Rightarrow> False
       | Completed p \<Rightarrow>
           column_mapping p = [(''Email!'', ''email''), (''Email#'', ''email'')]
           \<and> events p = [Opened, Started ''Emails'', Dropped ''emails'',
                          Failed ''Emails'' SqliteError, Closed]
           \<and> committed (connection p) ''emails'' = None)"
  by code_simp

text \<open>
  Claim C1, amended. For every input table with distinct original headers, the Column
  Normalizer maps each header to its normalized identifier with no disambiguation, and
  every original header keeps exactly one entry of the ColumnMapping, in header order.
  When two original headers normalize to the same identifier, the store refuses the
  table and no table is created: the name carries no table afterwards, or, when the
  statement that drops the old table was refused already, the table it carried before.
  Whenever the table is created, the normalized identifiers are pairwise distinct and
  the table is empty with one column per header, named by the normalized identifier,
  in header order.
\<close>

theorem create_table_plain_mapping:
  assumes "distinct (columns df)"
  shows "column_mapping (snd (create_table df n p))
           = map (\<lambda>h. (h, normalize_column_name h)) (columns df)
     \<and> (\<not> distinct (map normalize_column_name (columns df)) \<longrightarrow>
          fst (create_table df n p) = Some SqliteError
          \<and> current (connection (snd (create_table df n p))) (sql_table_name n)
              \<in> {None, current (connection p) (sql_table_name n)})
     \<and> (fst (create_table df n p) = None \<longrightarrow>
          distinct (map normalize_column_name (columns df))
          \<and> current (connection (snd (create_table df n p))) (sql_table_name n)
              = Some \<lparr>schema = map sql_column (col_dtypes df), content = []\<rparr>)"
proof -
  have mapping: "column_mapping (snd (create_table df n p))
      = map (\<lambda>h. (h, normalize_column_name h)) (columns df)"
    unfolding create_table_distinct_labels [OF assms] by (simp add: Let_def emit_def)
  have refused: "fst (create_table df n p) = Some SqliteError
      \<and> current (connection (snd (create_table df n p))) (sql_table_name n)
          \<in> {None, current (connection p) (sql_table_name n)}"
    if "\<not> distinct (map normalize_column_name (columns df))"
    unfolding create_table_distinct_labels [OF assms]
    using that by (simp add: Let_def emit_def create_refused_frame execute_ddl_def)
  have created: "distinct (map normalize_column_name (columns df))
      \<and> current (connection (snd (create_table df n p))) (sql_table_name n)
          = Some \<lparr>schema = map sql_column (col_dtypes df), content = []\<rparr>"
    if "fst (create_table df n p) = None"
    using that create_table_ok(2,5) [of df n p "snd (create_table df n p)"]
    by (simp add: prod_eq_iff)
  show ?thesis
    using mapping refused created by blast
qed

theorem create_table_plain_mapping_witness:
  "distinct (columns name_frame)
   \<and> map normalize_column_name (columns name_frame) = [''first_name'', ''first_name'', ''age'']
   \<and> column_mapping (snd (create_table name_frame ''people'' (connect Map.empty)))
       = [(''First Name'', ''first_name''), (''first-name'', ''first_name''), (''Age'', ''age'')]
   \<and> fst (create_table name_frame ''people'' (connect Map.empty)) = Some SqliteError
   \<and> current (connection (snd (create_table name_frame ''people'' (connect Map.empty)))) ''people''
       = None
   \<and> distinct (columns ab_frame)
   \<and> fst (create_table ab_frame ''people'' (connect Map.empty)) = None
   \<and> map normalize_column_name (columns ab_frame) = [''a'', ''b'']
   \<and> current (connection (snd (create_table ab_frame ''people'' (connect Map.empty)))) ''people''
       = Some \<lparr>schema = [(''a'', TEXT), (''b'', TEXT)], content = []\<rparr>"
proof -
  have c: "columns name_frame = [''First Name'', ''first-name'', ''Age'']"
    by (simp add: name_frame_def columns_def)
  have d: "distinct (columns name_frame)"
    by (simp add: c)
  have n: "map normalize_column_name (columns name_frame) = [''first_name'', ''first_name'', ''age'']"
    by (simp add: c normalizer_defs)
  have t: "sql_table_name ''people'' = ''people''"
    by (simp add: sql_table_name_def)
  have c': "columns ab_frame = [''A'', ''B'']"
    by (simp add: ab_frame_def columns_def)
  have d': "distinct (columns ab_frame)"
    by (simp add: c')
  have n': "map normalize_column_name (columns ab_frame) = [''a'', ''b'']"
    by (simp add: c' normalizer_defs)
  have s': "map sql_column (col_dtypes ab_frame) = [(''a'', TEXT), (''b'', TEXT)]"
    by (simp add: ab_frame_def sql_column_def normalizer_defs loader_defs)
  have ok: "fst (create_table ab_frame ''people'' (connect Map.empty)) = None"
    by code_simp
  have collide: "column_mapping (snd (create_table name_frame ''people'' (connect Map.empty)))
       = [(''First Name'', ''first_name''), (''first-name'', ''first_name''), (''Age'', ''age'')]
     \<and> fst (create_table name_frame ''people'' (connect Map.empty)) = Some SqliteError
     \<and> current (connection (snd (create_table name_frame ''people'' (connect Map.empty)))) ''people''
         = None"
    using create_table_plain_mapping [OF d, of "''people''" "connect Map.empty"] n
    by (simp add: t c connect_def)
  have apart: "current (connection (snd (create_table ab_frame ''people'' (connect Map.empty)))) ''people''
         = Some \<lparr>schema = [(''a'', TEXT), (''b'', TEXT)], content = []\<rparr>"
    using create_table_plain_mapping [OF d', of "''people''" "connect Map.empty"] ok
    by (simp add: t s')
  show ?thesis
    using d n collide d' ok n' apart by simp
qed

section \<open>Properties of the Row Loader values\<close>





lemma load_rows_fresh:
  assumes "connection q = \<lparr>committed = d, current = d, in_transaction = False\<rparr>"
    "d (sql_table_name n) = Some \<lparr>schema = cols, content = []\<rparr>" "cols \<noteq> []"
  shows "connection (snd (load_rows df n fault q))
       = loaded (sql_table_name n) cols
           (map (row_data (column_mapping q) (columns df) (map fst cols)) (rows df)) fault d
     \<and> column_mapping (snd (load_rows df n fault q)) = column_mapping q"
  using assms
  by (auto simp: load_rows_def Let_def table_info_def executemany_def insert_rows_def
      commit_def emit_def loaded_def split: option.split)

lemma loaded_update:
  "loaded t cols data fault (d(t \<mapsto> tb)) = loaded t cols data fault d"
  by (simp add: loaded_def Let_def)







section \<open>Properties of the destructive refresh\<close>

lemma drop_twice:
  "execute_ddl (\<lambda>d. d(t := None)) (execute_ddl (\<lambda>d. d(t := None)) c)
     = execute_ddl (\<lambda>d. d(t := None)) c"
  by (simp add: execute_ddl_def Let_def)

text \<open>
  \<open>_create_table\<close> once the column list is built, statement by statement, as in
  \<open>create_table_distinct_labels\<close>.
\<close>

lemma create_table_built:
  assumes "build_columns df (columns df) [] [] = (m, Inr cols)"
  shows "create_table df n q =
     (if malformed_name (sql_table_name n) then (Some SqliteError, q\<lparr>column_mapping := m\<rparr>)
      else if cols = [] \<or> create_refused (sql_table_name n) cols
      then (Some SqliteError,
            \<lparr>connection = execute_ddl (\<lambda>d. d(sql_table_name n := None)) (connection q),
             column_mapping = m,
             events = events q @ [Dropped (sql_table_name n)]\<rparr>)
      else (None,
            \<lparr>connection =
               \<lparr>committed = (current (connection q))(sql_table_name n \<mapsto>
                               \<lparr>schema = cols, content = []\<rparr>),
                current = (current (connection q))(sql_table_name n \<mapsto>
                               \<lparr>schema = cols, content = []\<rparr>),
                in_transaction = False\<rparr>,
             column_mapping = m,
             events = events q
                      @ [Dropped (sql_table_name n), Created (sql_table_name n), Committed]\<rparr>))"
  using assms
  by (simp add: create_table_def Let_def execute_drop_def execute_create_def emit_def
      create_refused_def execute_ddl_def commit_def)

lemma process_file_unparsed:
  assumes "\<forall>via df. parse_file sf \<noteq> Parsed via df"
  shows "connection (process_file sf q) = connection q
       \<and> column_mapping (process_file sf q) = column_mapping q"
  using assms
  by (cases "parse_file sf") (simp_all add: process_file_def process_file_body_def emit_def)

lemma process_file_bad_labels:
  assumes "parse_file sf = Parsed via df0"
    "build_columns (dropna_first df0) (columns (dropna_first df0)) [] [] = (m, Inl e)"
  shows "connection (process_file sf q) = connection q
       \<and> column_mapping (process_file sf q) = m"
  using assms
  by (simp add: process_file_def process_file_body_def create_table_def emit_def Let_def)

lemma process_file_malformed:
  assumes "parse_file sf = Parsed via df0"
    "build_columns (dropna_first df0) (columns (dropna_first df0)) [] [] = (m, Inr cols)"
    "malformed_name (sql_table_name (map lower_char (stem sf)))"
  shows "connection (process_file sf q) = connection q
       \<and> column_mapping (process_file sf q) = m"
  using assms
  by (simp add: process_file_def process_file_body_def create_table_built emit_def Let_def)

lemma process_file_refused:
  assumes "parse_file sf = Parsed via df0"
    "build_columns (dropna_first df0) (columns (dropna_first df0)) [] [] = (m, Inr cols)"
    "\<not> malformed_name (sql_table_name (map lower_char (stem sf)))"
    "cols = [] \<or> create_refused (sql_table_name (map lower_char (stem sf))) cols"
  shows "connection (process_file sf q)
           = execute_ddl (\<lambda>d. d(sql_table_name (map lower_char (stem sf)) := None))
               (connection q)
       \<and> column_mapping (process_file sf q) = m"
  using assms
  by (simp add: process_file_def process_file_body_def create_table_built emit_def Let_def)

lemma process_file_created:
  assumes "parse_file sf = Parsed via df0"
    "build_columns (dropna_first df0) (columns (dropna_first df0)) [] [] = (m, Inr cols)"
    "\<not> malformed_name (sql_table_name (map lower_char (stem sf)))"
    "cols \<noteq> []" "\<not> create_refused (sql_table_name (map lower_char (stem sf))) cols"
  shows "connection (process_file sf q)
           = loaded (sql_table_name (map lower_char (stem sf))) cols
               (map (row_data m (columns (dropna_first df0)) (map fst cols)) (rows (dropna_first df0)))
               (insert_fault sf) (current (connection q))
       \<and> column_mapping (process_file sf q) = m"
proof -
  let ?n = "map lower_char (stem sf)"
  let ?df = "dropna_first df0"
  let ?q = "emit [Started (stem sf)] q"
  obtain q1 where c: "create_table ?df ?n ?q = (None, q1)"
    and q1: "connection q1 =
         \<lparr>committed = (current (connection q))(sql_table_name ?n \<mapsto> \<lparr>schema = cols, content = []\<rparr>),
          current = (current (connection q))(sql_table_name ?n \<mapsto> \<lparr>schema = cols, content = []\<rparr>),
          in_transaction = False\<rparr>"
    and m1: "column_mapping q1 = m"
    using create_table_built [OF assms(2), of ?n ?q] assms(3,4,5) by (simp add: emit_def)
  have l: "connection (snd (load_rows ?df ?n (insert_fault sf) q1))
       = loaded (sql_table_name ?n) cols
           (map (row_data m (columns ?df) (map fst cols)) (rows ?df)) (insert_fault sf)
           (current (connection q))
     \<and> column_mapping (snd (load_rows ?df ?n (insert_fault sf) q1)) = m"
    using load_rows_fresh [OF q1 _ assms(4), where df = ?df and fault = "insert_fault sf"] m1
    by (simp add: loaded_update)
  have "process_file_body sf ?q
      = (case load_rows ?df ?n (insert_fault sf) q1 of
           (Some e, p) \<Rightarrow> (Exception e, p) | (None, p) \<Rightarrow> (Normal, p))"
    using assms(1) c
    by (simp add: process_file_body_def Let_def insert_data_def split_beta split: option.split)
  then show ?thesis
    using l
    by (cases "load_rows ?df ?n (insert_fault sf) q1")
      (auto simp: process_file_def emit_def split: option.split)
qed

lemma loaded_absorbs:
  "loaded t cols data fault (current (loaded t cols data fault d)) = loaded t cols data fault d"
  by (simp add: loaded_def Let_def)

lemma create_table_succeeds:
  assumes "fst (create_table df n q) = None"
  shows "\<exists>cols. snd (build_columns df (columns df) [] []) = Inr cols
     \<and> current (connection (snd (create_table df n q))) (sql_table_name n)
         = Some \<lparr>schema = cols, content = []\<rparr>"
proof -
  obtain m r where built: "build_columns df (columns df) [] [] = (m, r)"
    by (cases "build_columns df (columns df) [] []")
  then obtain cols where r: "r = Inr cols"
    using assms by (cases r) (simp_all add: create_table_def Let_def)
  show ?thesis
    using assms built r create_table_built [OF built [unfolded r], of n q]
    by (simp split: if_splits)
qed

lemma reingest_state:
  "connection (process_file sf (process_file sf p)) = connection (process_file sf p)
   \<and> column_mapping (process_file sf (process_file sf p)) = column_mapping (process_file sf p)"
proof (cases "\<exists>via df0. parse_file sf = Parsed via df0")
  case False
  then show ?thesis
    using process_file_unparsed [of sf] by simp
next
  case True
  then obtain via df0 where parsed: "parse_file sf = Parsed via df0"
    by auto
  obtain m r where built:
    "build_columns (dropna_first df0) (columns (dropna_first df0)) [] [] = (m, r)"
    by (cases "build_columns (dropna_first df0) (columns (dropna_first df0)) [] []")
  let ?t = "sql_table_name (map lower_char (stem sf))"
  show ?thesis
  proof (cases r)
    case (Inl e)
    then show ?thesis
      using process_file_bad_labels [OF parsed, of m e] built by simp
  next
    case (Inr cols)
    then have b: "build_columns (dropna_first df0) (columns (dropna_first df0)) [] []
        = (m, Inr cols)"
      using built by simp
    consider (malformed) "malformed_name ?t"
      | (refused) "\<not> malformed_name ?t" "cols = [] \<or> create_refused ?t cols"
      | (created) "\<not> malformed_name ?t" "cols \<noteq> []" "\<not> create_refused ?t cols"
      by blast
    then show ?thesis
    proof cases
      case malformed
      then show ?thesis
        using process_file_malformed [OF parsed b] by simp
    next
      case refused
      then show ?thesis
        using process_file_refused [OF parsed b] by (simp add: drop_twice)
    next
      case created
      then show ?thesis
        using process_file_created [OF parsed b] by (simp add: loaded_absorbs)
    qed
  qed
qed

lemma rerun_state:
  "committed (connection (process_file sf
       (connect (committed (connection (process_file sf (connect d)))))))
     = committed (connection (process_file sf (connect d)))"
proof (cases "\<exists>via df0. parse_file sf = Parsed via df0")
  case False
  then show ?thesis
    using process_file_unparsed [of sf] by (simp add: connect_def)
next
  case True
  then obtain via df0 where parsed: "parse_file sf = Parsed via df0"
    by auto
  obtain m r where built:
    "build_columns (dropna_first df0) (columns (dropna_first df0)) [] [] = (m, r)"
    by (cases "build_columns (dropna_first df0) (columns (dropna_first df0)) [] []")
  let ?t = "sql_table_name (map lower_char (stem sf))"
  show ?thesis
  proof (cases r)
    case (Inl e)
    then show ?thesis
      using process_file_bad_labels [OF parsed, of m e] built by (simp add: connect_def)
  next
    case (Inr cols)
    then have b: "build_columns (dropna_first df0) (columns (dropna_first df0)) [] []
        = (m, Inr cols)"
      using built by simp
    consider (malformed) "malformed_name ?t"
      | (refused) "\<not> malformed_name ?t" "cols = [] \<or> create_refused ?t cols"
      | (created) "\<not> malformed_name ?t" "cols \<noteq> []" "\<not> create_refused ?t cols"
      by blast
    then show ?thesis
    proof cases
      case malformed
      then show ?thesis
        using process_file_malformed [OF parsed b] by (simp add: connect_def)
    next
      case refused
      then show ?thesis
        using process_file_refused [OF parsed b]
        by (simp add: connect_def execute_ddl_def Let_def)
    next
      case created
      then show ?thesis
        using process_file_created [OF parsed b]
        by (simp add: connect_def loaded_def Let_def)
    qed
  qed
qed

text \<open>
  Claim C7. Ingesting a source file twice in succession, its contents and the store's
  behaviour unchanged, leaves the connection after the second ingestion as it was after
  the first: every table has the same columns and the same number of rows, and the
  ColumnMapping is the same. The same holds across runs: a second run on the database
  the first run left leaves that database as it is. Whenever the Schema Manager
  succeeds, the table of that name is the empty table made from the current file's
  columns, whatever the store held under that name before.
\<close>

theorem reingest_is_idempotent:
  "connection (process_file sf (process_file sf p)) = connection (process_file sf p)
   \<and> column_mapping (process_file sf (process_file sf p)) = column_mapping (process_file sf p)
   \<and> table_info (current (connection (process_file sf (process_file sf p)))) t
       = table_info (current (connection (process_file sf p))) t
   \<and> map_option (\<lambda>tb. length (content tb))
         (current (connection (process_file sf (process_file sf p))) t)
       = map_option (\<lambda>tb. length (content tb)) (current (connection (process_file sf p)) t)
   \<and> committed (connection (process_file sf
         (connect (committed (connection (process_file sf (connect d)))))))
       = committed (connection (process_file sf (connect d)))
   \<and> (fst (create_table df n q) = None \<longrightarrow>
        (\<exists>cols. snd (build_columns df (columns df) [] []) = Inr cols
           \<and> current (connection (snd (create_table df n q))) (sql_table_name n)
               = Some \<lparr>schema = cols, content = []\<rparr>))"
  using reingest_state [of sf p] rerun_state [of sf d] create_table_succeeds [of df n q]
  by simp

theorem reingest_is_idempotent_witness:
  "current (connection (connect stale_db)) ''ids''
     = Some \<lparr>schema = [(''old'', TEXT)], content = [[Some ''stale'']]\<rparr>
   \<and> fst (create_table ids_frame ''ids'' (connect stale_db)) = None
   \<and> current (connection (snd (create_table ids_frame ''ids'' (connect stale_db)))) ''ids''
       = Some \<lparr>schema = [(''id'', REAL), (''note'', TEXT)], content = []\<rparr>
   \<and> current (connection (process_file ids_file (connect stale_db))) ''ids''
       = Some \<lparr>schema = [(''id'', REAL), (''note'', TEXT)],
               content = [[Some ''1'', Some ''kept''], [Some ''3'', None]]\<rparr>
   \<and> current (connection (process_file ids_file (process_file ids_file (connect stale_db)))) ''ids''
       = Some \<lparr>schema = [(''id'', REAL), (''note'', TEXT)],
               content = [[Some ''1'', Some ''kept''], [Some ''3'', None]]\<rparr>"
proof -
  have stale: "current (connection (connect stale_db)) ''ids''
     = Some \<lparr>schema = [(''old'', TEXT)], content = [[Some ''stale'']]\<rparr>"
    by (simp add: connect_def stale_db_def)
  have ok: "fst (create_table ids_frame ''ids'' (connect stale_db)) = None"
    by code_simp
  have cols: "snd (build_columns ids_frame (columns ids_frame) [] [])
      = Inr [(''id'', REAL), (''note'', TEXT)]"
    by code_simp
  have name: "sql_table_name ''ids'' = ''ids''"
    by (simp add: sql_table_name_def)
  have once: "current (connection (process_file ids_file (connect stale_db))) ''ids''
       = Some \<lparr>schema = [(''id'', REAL), (''note'', TEXT)],
               content = [[Some ''1'', Some ''kept''], [Some ''3'', None]]\<rparr>"
    by code_simp
  show ?thesis
    using reingest_is_idempotent [where sf = ids_file and p = "connect stale_db"
        and t = "''ids''" and df = ids_frame and n = "''ids''"
        and q = "connect stale_db"]
      stale ok cols once
    by (simp add: name)
qed

section \<open>Properties of the Orchestrator\<close>

lemma store_event_simps:
  "store_event (Dropped t)" "store_event (Created t)" "store_event (Inserted t r)"
  "store_event Committed" "\<not> store_event Opened" "\<not> store_event Closed"
  "\<not> store_event (Started s)" "\<not> store_event (Loaded s)"
  "\<not> store_event (Unparsable s x)" "\<not> store_event (Failed s x)"
  by (simp_all add: store_event_def)

lemma file_outcome_simps:
  "file_outcome s (Loaded n) = (n = s)" "file_outcome s (Unparsable n x) = (n = s)"
  "file_outcome s (Failed n x) = (n = s)" "\<not> file_outcome s Opened"
  "\<not> file_outcome s Closed"
  by (simp_all add: file_outcome_def)

lemma create_table_events:
  "\<exists>es. events (snd (create_table df n p)) = events p @ es \<and> list_all store_event es"
proof -
  obtain m r where built: "build_columns df (columns df) [] [] = (m, r)"
    by (cases "build_columns df (columns df) [] []")
  show ?thesis
    using built
    by (cases r)
      (auto simp: create_table_def Let_def emit_def store_event_simps split: sum.split)
qed

lemma load_rows_events:
  "\<exists>es. events (snd (load_rows df n fault p)) = events p @ es \<and> list_all store_event es"
  by (auto simp: load_rows_def Let_def emit_def store_event_simps executemany_def list_all_iff
      split: option.split)

lemma process_file_body_events:
  "\<exists>es. events (snd (process_file_body sf p)) = events p @ es \<and> list_all store_event es"
proof (cases "parse_file sf")
  case (Parsed via df0)
  let ?df = "dropna_first df0"
  let ?n = "map lower_char (stem sf)"
  obtain r p1 where c: "create_table ?df ?n p = (r, p1)"
    by (cases "create_table ?df ?n p")
  obtain es1 where e1: "events p1 = events p @ es1" "list_all store_event es1"
    using create_table_events [of ?df ?n p] c by auto
  show ?thesis
  proof (cases r)
    case (Some e)
    then show ?thesis
      using Parsed c e1 by (simp add: process_file_body_def Let_def)
  next
    case None
    obtain es2 where e2: "events (snd (load_rows ?df ?n (insert_fault sf) p1)) = events p1 @ es2"
      "list_all store_event es2"
      using load_rows_events [of ?df ?n "insert_fault sf" p1] by auto
    have "events (snd (process_file_body sf p)) = events (snd (load_rows ?df ?n (insert_fault sf) p1))"
      using Parsed c None
      by (simp add: process_file_body_def Let_def insert_data_def split_beta split: option.split)
    then have "events (snd (process_file_body sf p)) = events p @ (es1 @ es2)"
      using e1 e2 by simp
    moreover have "list_all store_event (es1 @ es2)"
      using e1 e2 by simp
    ultimately show ?thesis by blast
  qed
qed (simp_all add: process_file_body_def)

lemma process_file_events:
  "\<exists>seg. events (process_file sf p) = events p @ seg \<and> file_segment (stem sf) seg"
proof -
  let ?q = "emit [Started (stem sf)] p"
  obtain es where es: "events (snd (process_file_body sf ?q)) = events ?q @ es"
    "list_all store_event es"
    using process_file_body_events [of sf ?q] by auto
  obtain out where out: "events (process_file sf p) = events (snd (process_file_body sf ?q)) @ [out]"
    "file_outcome (stem sf) out"
    by (cases "process_file_body sf ?q"; cases "fst (process_file_body sf ?q)")
      (auto simp: process_file_def emit_def file_outcome_simps)
  have "events (process_file sf p) = events p @ (Started (stem sf) # es @ [out])"
    using es out by (simp add: emit_def)
  moreover have "file_segment (stem sf) (Started (stem sf) # es @ [out])"
    using es out by (simp add: file_segment_def)
  ultimately show ?thesis by blast
qed

lemma fold_process_file_events:
  "\<exists>segs. events (fold process_file fs p) = events p @ concat segs
     \<and> list_all2 (\<lambda>sf seg. file_segment (stem sf) seg) fs segs"
proof (induction fs arbitrary: p)
  case Nil
  then show ?case by simp
next
  case (Cons sf fs)
  obtain seg where seg: "events (process_file sf p) = events p @ seg" "file_segment (stem sf) seg"
    using process_file_events by blast
  obtain segs where segs:
    "events (fold process_file fs (process_file sf p)) = events (process_file sf p) @ concat segs"
    "list_all2 (\<lambda>sf seg. file_segment (stem sf) seg) fs segs"
    using Cons.IH by blast
  have "events (fold process_file (sf # fs) p) = events p @ concat (seg # segs)"
    using seg segs by simp
  moreover have "list_all2 (\<lambda>sf seg. file_segment (stem sf) seg) (sf # fs) (seg # segs)"
    using seg segs by simp
  ultimately show ?case by blast
qed

lemma segment_no_open_close:
  assumes "file_segment s seg"
  shows "Opened \<notin> set seg \<and> Closed \<notin> set seg"
proof -
  from assms obtain es where seg: "seg = Started s # es" "es \<noteq> []"
    "list_all store_event (butlast es)" "file_outcome s (last es)"
    by (cases seg) (simp_all add: file_segment_def)
  have es: "es = butlast es @ [last es]"
    using seg(2) by simp
  have inner: "e \<noteq> Opened \<and> e \<noteq> Closed" if "e \<in> set (butlast es)" for e
    using that seg(3) store_event_simps(5,6) by (auto simp: list_all_iff)
  have final: "last es \<noteq> Opened \<and> last es \<noteq> Closed"
    using seg(4) file_outcome_simps(4,5) by auto
  have "e \<noteq> Opened \<and> e \<noteq> Closed" if "e \<in> set es" for e
  proof -
    from that have "e \<in> set (butlast es) \<or> e = last es"
      by (subst (asm) es) auto
    then show ?thesis using inner final by auto
  qed
  then show ?thesis
    using seg(1) by auto
qed

lemma segments_no_open_close:
  "list_all2 (\<lambda>sf seg. file_segment (stem sf) seg) fs segs \<Longrightarrow>
     filter (\<lambda>e. e = Opened) (concat segs) = [] \<and> filter (\<lambda>e. e = Closed) (concat segs) = []"
proof (induction fs segs rule: list_all2_induct)
  case Nil
  then show ?case by simp
next
  case (Cons sf fs seg segs)
  then show ?case
    using segment_no_open_close [of "stem sf" seg] by (auto simp: filter_empty_conv)
qed

lemma process_files_printable:
  "list_all (\<lambda>sf. print_fault sf = None) fs \<Longrightarrow> process_files fs p = (None, fold process_file fs p)"
  by (induction fs arbitrary: p) (simp_all add: loop_turn_def)

lemma process_files_unprintable:
  assumes "list_all (\<lambda>sf. print_fault sf = None) pre" "print_fault sf = Some e"
  shows "process_files (pre @ sf # post) p
       = (Some e, emit [Started (stem sf)] (fold process_file pre p))"
  using assms(1)
  by (induction pre arbitrary: p) (simp_all add: loop_turn_def assms(2))

lemma parse_raised_is_failed:
  "parse_file sf = Raised e \<Longrightarrow> process_file sf p = emit [Started (stem sf), Failed (stem sf) e] p"
  by (simp add: process_file_def process_file_body_def emit_def)

lemma parse_skipped_is_unparsable:
  "parse_file sf = Skipped e \<Longrightarrow>
     process_file sf p = emit [Started (stem sf), Unparsable (stem sf) e] p"
  by (simp add: process_file_def process_file_body_def emit_def)

lemma create_raised_is_failed:
  assumes "parse_file sf = Parsed via df"
    "create_table (dropna_first df) (map lower_char (stem sf)) (emit [Started (stem sf)] p)
       = (Some e, q)"
  shows "process_file sf p = emit [Failed (stem sf) e] q"
  using assms by (simp add: process_file_def process_file_body_def Let_def)

lemma insert_raised_is_failed:
  assumes "parse_file sf = Parsed via df"
    "create_table (dropna_first df) (map lower_char (stem sf)) (emit [Started (stem sf)] p)
       = (None, q)"
    "snd (insert_data (dropna_first df) (map lower_char (stem sf)) (insert_fault sf) q)
       = (Some e, q')"
  shows "process_file sf p = emit [Failed (stem sf) e] q'"
  using assms
  by (cases "insert_data (dropna_first df) (map lower_char (stem sf)) (insert_fault sf) q")
    (simp add: process_file_def process_file_body_def Let_def)

text \<open>
  Claim C5, the code at the failing input. The first of two files is well formed, and
  the console cannot write its name. The line written after the parse raises
  \<open>UnicodeEncodeError\<close> inside the per-file \<open>try\<close>; the handler writes the name again,
  which raises inside the handler, and that exception leaves the loop: the run ends
  with it, the second file is never started and the connection is never closed. Alone,
  the second file is loaded.
\<close>

theorem unprintable_name_ends_the_run:
  "parse_file unprintable_file
     = Parsed (Via Default_utf8) \<lparr>col_dtypes = [(''k'', Object)], rows = [[Some ''v'']]\<rparr>
   \<and> process_directory (Inr Map.empty) [unprintable_file, sound_file] = Fatal UnicodeEncodeError
   \<and> process_files [unprintable_file, sound_file] (connect Map.empty)
       = (Some UnicodeEncodeError,
          \<lparr>connection = \<lparr>committed = Map.empty, current = Map.empty, in_transaction = False\<rparr>,
           column_mapping = [],
           events = [Opened, Started (''caf'' @ [CHR 0xE9])]\<rparr>)
   \<and> (case process_directory (Inr Map.empty) [sound_file] of
         Fatal e \<Rightarrow> False
       | Completed p \<Rightarrow>
           events p =
             [Opened, Started ''second'', Dropped ''second'', Created ''second'', Committed,
              Inserted ''second'' [Some ''v''], Committed, Loaded ''second'', Closed])"
proof -
  have parsed: "parse_file unprintable_file
     = Parsed (Via Default_utf8) \<lparr>col_dtypes = [(''k'', Object)], rows = [[Some ''v'']]\<rparr>"
    by (simp add: unprintable_file_def parser_defs)
  have turn: "loop_turn unprintable_file p
      = (Some UnicodeEncodeError, emit [Started (''caf'' @ [CHR 0xE9])] p)" for p
    by (simp add: loop_turn_def unprintable_file_def)
  have files: "process_files [unprintable_file, sound_file] (connect Map.empty)
       = (Some UnicodeEncodeError,
          \<lparr>connection = \<lparr>committed = Map.empty, current = Map.empty, in_transaction = False\<rparr>,
           column_mapping = [],
           events = [Opened, Started (''caf'' @ [CHR 0xE9])]\<rparr>)"
    by (simp add: turn connect_def emit_def)
  have run: "process_directory (Inr Map.empty) [unprintable_file, sound_file]
      = Fatal UnicodeEncodeError"
    by (simp add: process_directory_def turn)
  have alone: "(case process_directory (Inr Map.empty) [sound_file] of
         Fatal e \<Rightarrow> False
       | Completed p \<Rightarrow>
           events p =
             [Opened, Started ''second'', Dropped ''second'', Created ''second'', Committed,
              Inserted ''second'' [Some ''v''], Committed, Loaded ''second'', Closed])"
    by code_simp
  show ?thesis
    using parsed files run alone by simp
qed

text \<open>
  What the loop does in a run in which the console can write every file's name. An
  exception the parse raises, one the creation of the table raises and one the insert
  raises each end that file with the outcome failed, carrying the exception; a failure
  of the manual fallback ends it as unparsable. The run completes whatever happens in
  the files: its events are the opening of the connection, then for each file in order
  one segment that starts with the file, holds events of the store only and ends with
  that file's one outcome, then the closing of the connection. The connection is opened
  exactly once and closed exactly once, and a store that cannot be opened ends the run
  before any file.
\<close>

theorem printable_run_isolates_failures:
  assumes "list_all (\<lambda>sf. print_fault sf = None) fs"
  shows "process_directory (Inl e) fs = Fatal e
   \<and> (\<exists>p segs. process_directory (Inr d) fs = Completed p
        \<and> events p = Opened # concat segs @ [Closed]
        \<and> list_all2 (\<lambda>sf seg. file_segment (stem sf) seg) fs segs
        \<and> length (filter (\<lambda>e. e = Opened) (events p)) = 1
        \<and> length (filter (\<lambda>e. e = Closed) (events p)) = 1)"
proof -
  obtain segs where segs:
    "events (fold process_file fs (connect d)) = events (connect d) @ concat segs"
    "list_all2 (\<lambda>sf seg. file_segment (stem sf) seg) fs segs"
    using fold_process_file_events by blast
  let ?p = "emit [Closed] (fold process_file fs (connect d))"
  have ev: "events ?p = Opened # concat segs @ [Closed]"
    using segs(1) by (simp add: emit_def connect_def)
  have "length (filter (\<lambda>e. e = Opened) (events ?p)) = 1"
    "length (filter (\<lambda>e. e = Closed) (events ?p)) = 1"
    using segments_no_open_close [OF segs(2)] by (simp_all add: ev)
  then show ?thesis
    using ev segs(2) by (auto simp: process_directory_def process_files_printable [OF assms])
qed

theorem printable_run_isolates_failures_witness:
  "list_all (\<lambda>sf. print_fault sf = None) [latin1_file, sound_file]
   \<and> (\<exists>p segs. process_directory (Inr Map.empty) [latin1_file, sound_file] = Completed p
        \<and> events p = Opened # concat segs @ [Closed]
        \<and> list_all2 (\<lambda>sf seg. file_segment (stem sf) seg) [latin1_file, sound_file] segs
        \<and> length (filter (\<lambda>e. e = Opened) (events p)) = 1
        \<and> length (filter (\<lambda>e. e = Closed) (events p)) = 1)"
proof -
  have h: "list_all (\<lambda>sf. print_fault sf = None) [latin1_file, sound_file]"
    by (simp add: latin1_file_def sound_file_def)
  show ?thesis
    using printable_run_isolates_failures [OF h, of _ Map.empty] h by blast
qed

section \<open>Properties of the commit order\<close>

lemma loaded_means_normal:
  assumes "last (events (process_file sf p)) = Loaded (stem sf)"
  shows "fst (process_file_body sf (emit [Started (stem sf)] p)) = Normal"
proof -
  obtain out q where b: "process_file_body sf (emit [Started (stem sf)] p) = (out, q)"
    by (cases "process_file_body sf (emit [Started (stem sf)] p)")
  show ?thesis
    using assms b by (cases out) (simp_all add: process_file_def emit_def)
qed

lemma body_normal:
  assumes "process_file_body sf q = (Normal, q')"
  shows "\<exists>via df0 q1. parse_file sf = Parsed via df0
     \<and> create_table (dropna_first df0) (map lower_char (stem sf)) q = (None, q1)
     \<and> load_rows (dropna_first df0) (map lower_char (stem sf)) (insert_fault sf) q1 = (None, q')"
proof (cases "parse_file sf")
  case (Parsed via df0)
  obtain r q1 where c: "create_table (dropna_first df0) (map lower_char (stem sf)) q = (r, q1)"
    by (cases "create_table (dropna_first df0) (map lower_char (stem sf)) q")
  obtain r2 q2 where l:
    "load_rows (dropna_first df0) (map lower_char (stem sf)) (insert_fault sf) q1 = (r2, q2)"
    by (cases "load_rows (dropna_first df0) (map lower_char (stem sf)) (insert_fault sf) q1")
  show ?thesis
    using assms Parsed c l
    by (cases r; cases r2)
      (simp_all add: process_file_body_def Let_def insert_data_def split_beta)
next
  case (Skipped e)
  then show ?thesis using assms by (simp add: process_file_body_def)
next
  case (Raised e)
  then show ?thesis using assms by (simp add: process_file_body_def)
qed

lemma create_table_ok_form:
  assumes "create_table df n q = (None, q1)"
  shows "\<exists>m cols. cols \<noteq> []
     \<and> q1 = \<lparr>connection =
               \<lparr>committed = (current (connection q))(sql_table_name n \<mapsto> \<lparr>schema = cols, content = []\<rparr>),
                current = (current (connection q))(sql_table_name n \<mapsto> \<lparr>schema = cols, content = []\<rparr>),
                in_transaction = False\<rparr>,
             column_mapping = m,
             events = events q @ [Dropped (sql_table_name n), Created (sql_table_name n), Committed]\<rparr>"
proof -
  obtain m r where built: "build_columns df (columns df) [] [] = (m, r)"
    by (cases "build_columns df (columns df) [] []")
  then obtain cols where r: "r = Inr cols"
    using assms by (cases r) (simp_all add: create_table_def Let_def)
  show ?thesis
    using assms create_table_built [OF built [unfolded r], of n q]
    by (auto split: if_splits)
qed

lemma load_rows_ok_form:
  assumes "connection q1 = \<lparr>committed = d, current = d, in_transaction = False\<rparr>"
    "d (sql_table_name n) = Some \<lparr>schema = cols, content = []\<rparr>" "cols \<noteq> []"
    "load_rows df n fault q1 = (None, q')"
  shows "\<exists>data. events q' = events q1 @ map (Inserted (sql_table_name n)) data @ [Committed]
     \<and> connection q' =
         \<lparr>committed = d(sql_table_name n \<mapsto> \<lparr>schema = cols, content = data\<rparr>),
          current = d(sql_table_name n \<mapsto> \<lparr>schema = cols, content = data\<rparr>),
          in_transaction = False\<rparr>"
proof -
  let ?data = "map (row_data (column_mapping q1) (columns df) (map fst cols)) (rows df)"
  have "events q' = events q1 @ map (Inserted (sql_table_name n)) ?data @ [Committed]
     \<and> connection q' =
         \<lparr>committed = d(sql_table_name n \<mapsto> \<lparr>schema = cols, content = ?data\<rparr>),
          current = d(sql_table_name n \<mapsto> \<lparr>schema = cols, content = ?data\<rparr>),
          in_transaction = False\<rparr>"
    using assms
    by (auto simp: load_rows_def Let_def table_info_def executemany_def insert_rows_def
        commit_def emit_def split: option.splits if_splits)
  then show ?thesis by blast
qed

text \<open>
  Claim C9, counterexample. In a run over two files the store fails at the second row
  of the first file. After the first file the connection is in a transaction: the
  inserted row is in the table as this connection sees it and not in the committed
  table. The next commit is the one of the second file's table creation, so the row of
  the first file is committed during the processing of the second file.
\<close>

theorem failed_insert_is_committed_by_next_file:
  "in_transaction (connection (process_file faulty_file (connect Map.empty)))
   \<and> map_option content
        (committed (connection (process_file faulty_file (connect Map.empty))) ''first'') = Some []
   \<and> map_option content
        (current (connection (process_file faulty_file (connect Map.empty))) ''first'')
       = Some [[Some ''1'']]
   \<and> (case process_directory (Inr Map.empty) [faulty_file, sound_file] of
         Fatal e \<Rightarrow> False
       | Completed p \<Rightarrow>
           events p =
             [Opened,
              Started ''first'', Dropped ''first'', Created ''first'', Committed,
              Inserted ''first'' [Some ''1''], Failed ''first'' SqliteError,
              Started ''second'', Dropped ''second'', Created ''second'', Committed,
              Inserted ''second'' [Some ''v''], Committed, Loaded ''second'',
              Closed]
           \<and> map_option content (committed (connection p) ''first'') = Some [[Some ''1'']])"
  by code_simp

text \<open>
  Claim C9, amended. For every file that is loaded without error, the events of its
  processing are, in this order: its start, the drop and the creation of its table, a
  commit, the insertion of its rows, one commit, and its end. The rows committed to its
  table are exactly the rows inserted, and when its processing ends no transaction is
  open and nothing is left uncommitted on the connection. The events of the next file
  come after all of these.
\<close>

theorem loaded_file_commits_once:
  assumes "last (events (process_file sf p)) = Loaded (stem sf)"
  shows "\<exists>data.
       events (process_file sf p)
         = events p
           @ [Started (stem sf), Dropped (sql_table_name (map lower_char (stem sf))),
              Created (sql_table_name (map lower_char (stem sf))), Committed]
           @ map (Inserted (sql_table_name (map lower_char (stem sf)))) data
           @ [Committed, Loaded (stem sf)]
       \<and> map_option content
            (committed (connection (process_file sf p)) (sql_table_name (map lower_char (stem sf))))
           = Some data
       \<and> \<not> in_transaction (connection (process_file sf p))
       \<and> committed (connection (process_file sf p)) = current (connection (process_file sf p))
       \<and> (\<exists>seg. events (process_file next_file (process_file sf p))
                   = events (process_file sf p) @ seg
                 \<and> file_segment (stem next_file) seg)"
proof -
  let ?q = "emit [Started (stem sf)] p"
  let ?n = "map lower_char (stem sf)"
  obtain q' where b: "process_file_body sf ?q = (Normal, q')"
    using loaded_means_normal [OF assms] by (cases "process_file_body sf ?q") simp
  then obtain via df0 q1 where
    c: "create_table (dropna_first df0) ?n ?q = (None, q1)" and
    l: "load_rows (dropna_first df0) ?n (insert_fault sf) q1 = (None, q')"
    using body_normal by blast
  obtain m cols where cols: "cols \<noteq> []" and
    q1: "q1 = \<lparr>connection =
               \<lparr>committed = (current (connection ?q))(sql_table_name ?n \<mapsto> \<lparr>schema = cols, content = []\<rparr>),
                current = (current (connection ?q))(sql_table_name ?n \<mapsto> \<lparr>schema = cols, content = []\<rparr>),
                in_transaction = False\<rparr>,
             column_mapping = m,
             events = events ?q @ [Dropped (sql_table_name ?n), Created (sql_table_name ?n), Committed]\<rparr>"
    using create_table_ok_form [OF c] by blast
  have c1: "connection q1 =
      \<lparr>committed = (current (connection ?q))(sql_table_name ?n \<mapsto> \<lparr>schema = cols, content = []\<rparr>),
       current = (current (connection ?q))(sql_table_name ?n \<mapsto> \<lparr>schema = cols, content = []\<rparr>),
       in_transaction = False\<rparr>"
    by (simp add: q1)
  obtain data where
    ev: "events q' = events q1 @ map (Inserted (sql_table_name ?n)) data @ [Committed]" and
    cn: "connection q' =
         \<lparr>committed = ((current (connection ?q))(sql_table_name ?n \<mapsto> \<lparr>schema = cols, content = []\<rparr>))
                        (sql_table_name ?n \<mapsto> \<lparr>schema = cols, content = data\<rparr>),
          current = ((current (connection ?q))(sql_table_name ?n \<mapsto> \<lparr>schema = cols, content = []\<rparr>))
                        (sql_table_name ?n \<mapsto> \<lparr>schema = cols, content = data\<rparr>),
          in_transaction = False\<rparr>"
    using load_rows_ok_form [OF c1 _ cols l] by auto
  have pf: "process_file sf p = emit [Loaded (stem sf)] q'"
    using b by (simp add: process_file_def)
  have "events (process_file sf p)
         = events p
           @ [Started (stem sf), Dropped (sql_table_name ?n), Created (sql_table_name ?n), Committed]
           @ map (Inserted (sql_table_name ?n)) data
           @ [Committed, Loaded (stem sf)]"
    by (simp add: pf ev q1 emit_def)
  moreover have "map_option content (committed (connection (process_file sf p)) (sql_table_name ?n))
      = Some data"
    by (simp add: pf cn emit_def)
  moreover have "\<not> in_transaction (connection (process_file sf p))"
    "committed (connection (process_file sf p)) = current (connection (process_file sf p))"
    by (simp_all add: pf cn emit_def)
  ultimately show ?thesis
    using process_file_events [of next_file "process_file sf p"] by blast
qed

theorem loaded_file_commits_once_witness:
  "last (events (process_file sound_file (connect Map.empty))) = Loaded ''second''
   \<and> events (process_file sound_file (connect Map.empty))
       = [Opened, Started ''second'', Dropped ''second'', Created ''second'', Committed,
          Inserted ''second'' [Some ''v''], Committed, Loaded ''second'']
   \<and> \<not> in_transaction (connection (process_file sound_file (connect Map.empty)))
   \<and> committed (connection (process_file sound_file (connect Map.empty)))
       = current (connection (process_file sound_file (connect Map.empty)))"
proof -
  have s: "stem sound_file = ''second''"
    by (simp add: sound_file_def)
  have e: "events (process_file sound_file (connect Map.empty))
       = [Opened, Started ''second'', Dropped ''second'', Created ''second'', Committed,
          Inserted ''second'' [Some ''v''], Committed, Loaded ''second'']"
    by code_simp
  then have h: "last (events (process_file sound_file (connect Map.empty))) = Loaded (stem sound_file)"
    by (simp add: s)
  show ?thesis
    using loaded_file_commits_once [OF h, of sound_file] e by (auto simp: s)
qed

end
